theory Spec2Isabelle
  imports Complex_Main "HOL-Library.Word" "HOL-Library.Extended_Nat"
begin

unbundle bit_operations_syntax

section \<open>Conventions of the embedding\<close>

text \<open>
  The driver computes with C++ \<^verbatim>\<open>double\<close>. The embedding reads every \<^verbatim>\<open>double\<close> as a
  \<^typ>\<open>real\<close>: rounding error, infinities and NaN are outside the model, and the one
  place where the code can divide by zero (\<^verbatim>\<open>delta / elapsed\<close>) is written out as a case.
  \<^verbatim>\<open>M_PI\<close> is \<^term>\<open>pi\<close>. \<^verbatim>\<open>int\<close> is a 32-bit two's complement word where the code
  computes with it bitwise, and an unbounded integer where it only counts.
  Fields of the source that end in an underscore (\<^verbatim>\<open>pose_\<close>, \<^verbatim>\<open>prev_\<close>, ...) drop it,
  and the fields \<^verbatim>\<open>x\<close>, \<^verbatim>\<open>y\<close>, \<^verbatim>\<open>th\<close> of \<^verbatim>\<open>Pose2D\<close> are \<open>px\<close>, \<open>py\<close>, \<open>pth\<close>.
\<close>

section \<open>Pose2D\<close>

record Pose2D =
  px :: real
  py :: real
  pth :: real

text \<open>\<^verbatim>\<open>Pose2D()\<close> and \<^verbatim>\<open>Pose2D(x, y, th)\<close>.\<close>

definition Pose2D_zero :: Pose2D where
  "Pose2D_zero = \<lparr>px = 0, py = 0, pth = 0\<rparr>"

definition Pose2D_of :: "real \<Rightarrow> real \<Rightarrow> real \<Rightarrow> Pose2D" where
  "Pose2D_of a b c = \<lparr>px = a, py = b, pth = c\<rparr>"

text \<open>
  The compound assignments change \<^verbatim>\<open>*this\<close> and return a reference to it; each is modelled
  by the new value of \<^verbatim>\<open>*this\<close>.
\<close>

definition Pose2D_pluseq :: "Pose2D \<Rightarrow> Pose2D \<Rightarrow> Pose2D" where
  "Pose2D_pluseq this other =
     \<lparr>px = px this + px other, py = py this + py other, pth = pth this + pth other\<rparr>"

text \<open>
  \<^verbatim>\<open>operator -=\<close> tests \<^verbatim>\<open>abs(th - other.th) > M_PI\<close> with an unqualified \<^verbatim>\<open>abs\<close>. The
  driver declares no \<^verbatim>\<open>abs\<close> of its own and has no \<^verbatim>\<open>using\<close>: which function the call
  names is decided by the system headers, which are not part of the repository. Where
  they put the \<^verbatim>\<open>double\<close> overload into the global namespace the call is the absolute
  value; where only \<^verbatim>\<open>int abs(int)\<close> of the C library is visible, the difference is first
  converted to \<^verbatim>\<open>int\<close>, which drops its fraction, and the \<^verbatim>\<open>int\<close> result is compared with
  \<^verbatim>\<open>M_PI\<close>. The overload is therefore a parameter of the operator and of every function
  that reaches it. (The conversion of a \<^verbatim>\<open>double\<close> outside the range of \<^verbatim>\<open>int\<close> is
  undefined in C++; such differences are outside the model.)
\<close>

datatype abs_overload = Abs_double | Abs_int

definition double_to_int :: "real \<Rightarrow> int" where
  "double_to_int v = (if 0 \<le> v then \<lfloor>v\<rfloor> else \<lceil>v\<rceil>)"

definition c_abs :: "abs_overload \<Rightarrow> real \<Rightarrow> real" where
  "c_abs ov v = (case ov of Abs_double \<Rightarrow> \<bar>v\<bar> | Abs_int \<Rightarrow> real_of_int \<bar>double_to_int v\<bar>)"

definition Pose2D_minuseq :: "abs_overload \<Rightarrow> Pose2D \<Rightarrow> Pose2D \<Rightarrow> Pose2D" where
  "Pose2D_minuseq ov this other =
     (let x1 = px this - px other;
          y1 = py this - py other;
          th1 = (if c_abs ov (pth this - pth other) > pi
                 then (if pth other > 0 then pth this + 2 * pi else pth this - 2 * pi)
                 else pth this)
      in \<lparr>px = x1, py = y1, pth = th1 - pth other\<rparr>)"

definition Pose2D_diveq :: "Pose2D \<Rightarrow> real \<Rightarrow> Pose2D" where
  "Pose2D_diveq this other =
     \<lparr>px = px this / other, py = py this / other, pth = pth this / other\<rparr>"

text \<open>
  The binary operators are declared as
  \<^verbatim>\<open>inline Pose2D& operator -(const Pose2D& other) { return *this -= other; }\<close>:
  they run the compound assignment on their left operand. The model returns the pair of
  the operator's value and the left operand as it is left behind, which are the same
  object.
\<close>

definition Pose2D_plus :: "Pose2D \<Rightarrow> Pose2D \<Rightarrow> Pose2D \<times> Pose2D" where
  "Pose2D_plus this other = (let r = Pose2D_pluseq this other in (r, r))"

definition Pose2D_minus :: "abs_overload \<Rightarrow> Pose2D \<Rightarrow> Pose2D \<Rightarrow> Pose2D \<times> Pose2D" where
  "Pose2D_minus ov this other = (let r = Pose2D_minuseq ov this other in (r, r))"

definition Pose2D_div :: "Pose2D \<Rightarrow> real \<Rightarrow> Pose2D \<times> Pose2D" where
  "Pose2D_div this other = (let r = Pose2D_diveq this other in (r, r))"

section \<open>BaseOdometry\<close>

text \<open>
  \<open>vel\<close> is \<open>None\<close> when the last update divided by an elapsed time of zero: the
  \<^verbatim>\<open>double\<close> result is then infinite or NaN, which \<^typ>\<open>real\<close> does not have.
  \<^verbatim>\<open>ros::Time::now()\<close> is an input: every function that reads the clock takes the
  readings as arguments, in the order the source reads them.
\<close>

record BaseOdometry =
  pose :: Pose2D
  vel :: "Pose2D option"
  prev :: Pose2D
  offset :: Pose2D
  last_time :: real

definition BaseOdometry_new :: "real \<Rightarrow> BaseOdometry" where
  "BaseOdometry_new now =
     \<lparr>pose = Pose2D_zero, vel = Some Pose2D_zero, prev = Pose2D_zero,
      offset = Pose2D_zero, last_time = now\<rparr>"

definition BaseOdometry_with :: "Pose2D \<Rightarrow> real \<Rightarrow> BaseOdometry" where
  "BaseOdometry_with off now =
     \<lparr>pose = Pose2D_zero, vel = Some Pose2D_zero, prev = Pose2D_zero,
      offset = off, last_time = now\<rparr>"

text \<open>
  \<^verbatim>\<open>updateWithRelative(Pose2D delta)\<close> reads the clock twice (\<open>now1\<close> for the elapsed
  time, \<open>now2\<close> for the new \<^verbatim>\<open>last_time_\<close>). \<^verbatim>\<open>delta / elapsed\<close> divides the local copy
  \<^verbatim>\<open>delta\<close> in place, after \<^verbatim>\<open>pose_ += delta\<close> has read it.
\<close>

definition updateWithRelative :: "BaseOdometry \<Rightarrow> Pose2D \<Rightarrow> real \<Rightarrow> real \<Rightarrow> BaseOdometry" where
  "updateWithRelative bo delta now1 now2 =
     (let elapsed = now1 - last_time bo
      in bo\<lparr>last_time := now2,
            pose := Pose2D_pluseq (pose bo) delta,
            vel := (if elapsed = 0 then None else Some (fst (Pose2D_div delta elapsed)))\<rparr>)"

text \<open>
  \<^verbatim>\<open>updateWithAbsolute(Pose2D abs)\<close>: \<^verbatim>\<open>abs - prev_\<close> is evaluated first and leaves its
  result in the parameter \<^verbatim>\<open>abs\<close>; \<^verbatim>\<open>updateWithRelative\<close> receives a copy of it; then
  \<^verbatim>\<open>prev_ = abs\<close> stores the parameter as it now is.
\<close>

definition updateWithAbsolute ::
  "abs_overload \<Rightarrow> BaseOdometry \<Rightarrow> Pose2D \<Rightarrow> real \<Rightarrow> real \<Rightarrow> BaseOdometry" where
  "updateWithAbsolute ov bo abs0 now1 now2 =
     (let (delta, abs1) = Pose2D_minus ov abs0 (prev bo);
          bo1 = updateWithRelative bo delta now1 now2
      in bo1\<lparr>prev := abs1\<rparr>)"

text \<open>\<^verbatim>\<open>getPose()\<close> returns \<^verbatim>\<open>pose_\<close>.\<close>

definition getPose :: "BaseOdometry \<Rightarrow> Pose2D" where
  "getPose bo = pose bo"

section \<open>The odometry message\<close>

text \<open>
  The part of \<^verbatim>\<open>nav_msgs::Odometry\<close> that \<^verbatim>\<open>getMessage\<close> fills in. The orientation is
  kept as the yaw handed to \<^verbatim>\<open>tf::createQuaternionMsgFromYaw\<close>. Each covariance is an
  array of 36 \<^verbatim>\<open>double\<close>, a 6 by 6 matrix stored row by row in the order x, y, z, roll,
  pitch, yaw, so that entry \<open>7 * i\<close> is the \<open>i\<close>-th diagonal entry. A twist component is
  \<open>None\<close> when \<open>vel\<close> is.
\<close>

record Odometry =
  stamp :: real
  frame_id :: string
  child_frame_id :: string
  position_x :: real
  position_y :: real
  position_z :: real
  orientation_yaw :: real
  pose_covariance :: "real list"
  twist_linear_x :: "real option"
  twist_linear_y :: "real option"
  twist_angular_z :: "real option"
  twist_covariance :: "real list"

text \<open>
  Modelled from the spec: the constructor of \<^verbatim>\<open>nav_msgs::Odometry\<close> is generated from
  the message description and is not in the repository. The spec has every entry of
  the covariance that \<^verbatim>\<open>getMessage\<close> does not assign equal to zero ("off-diagonal terms
  are always zero"), so the fresh message holds zeros and empty strings.
\<close>

definition Odometry_new :: Odometry where
  "Odometry_new =
     \<lparr>stamp = 0, frame_id = [], child_frame_id = [],
      position_x = 0, position_y = 0, position_z = 0, orientation_yaw = 0,
      pose_covariance = replicate 36 0,
      twist_linear_x = Some 0, twist_linear_y = Some 0, twist_angular_z = Some 0,
      twist_covariance = replicate 36 0\<rparr>"

text \<open>
  In C++ \<^verbatim>\<open>^\<close> is bitwise exclusive or on \<^verbatim>\<open>int\<close>, and unary minus binds tighter:
  \<^verbatim>\<open>10^-3\<close> is \<^verbatim>\<open>10 ^ (-3)\<close>. The \<^verbatim>\<open>int\<close> result is converted to \<^verbatim>\<open>double\<close> on
  assignment.
\<close>

definition int_xor :: "32 word \<Rightarrow> 32 word \<Rightarrow> 32 word" where
  "int_xor a b = a XOR b"

definition int_to_double :: "32 word \<Rightarrow> real" where
  "int_to_double w = real_of_int (sint w)"

definition getMessage :: "BaseOdometry \<Rightarrow> string \<Rightarrow> Odometry" where
  "getMessage bo robot_prefix =
     (let m = Odometry_new;
          m = m\<lparr>stamp := last_time bo\<rparr>;
          m = m\<lparr>frame_id := robot_prefix @ ''odom''\<rparr>;
          m = m\<lparr>child_frame_id := robot_prefix @ ''base_link''\<rparr>;
          m = m\<lparr>position_x := px (pose bo) + px (offset bo)\<rparr>;
          m = m\<lparr>position_y := py (pose bo) + py (offset bo)\<rparr>;
          m = m\<lparr>position_z := 0\<rparr>;
          m = m\<lparr>orientation_yaw := pth (pose bo) + pth (offset bo)\<rparr>;
          m = m\<lparr>pose_covariance := (pose_covariance m)[0 := int_to_double (int_xor 10 (- 3))]\<rparr>;
          m = m\<lparr>pose_covariance := (pose_covariance m)[7 := int_to_double (int_xor 10 (- 3))]\<rparr>;
          m = m\<lparr>pose_covariance := (pose_covariance m)[14 := int_to_double (int_xor 10 6)]\<rparr>;
          m = m\<lparr>pose_covariance := (pose_covariance m)[21 := int_to_double (int_xor 10 6)]\<rparr>;
          m = m\<lparr>pose_covariance := (pose_covariance m)[28 := int_to_double (int_xor 10 6)]\<rparr>;
          m = m\<lparr>pose_covariance := (pose_covariance m)[35 := int_to_double (int_xor 10 3)]\<rparr>;
          m = m\<lparr>twist_linear_x := map_option px (vel bo)\<rparr>;
          m = m\<lparr>twist_linear_y := map_option py (vel bo)\<rparr>;
          m = m\<lparr>twist_angular_z := map_option pth (vel bo)\<rparr>;
          m = m\<lparr>twist_covariance := (twist_covariance m)[0 := int_to_double (int_xor 10 (- 3))]\<rparr>;
          m = m\<lparr>twist_covariance := (twist_covariance m)[7 := int_to_double (int_xor 10 (- 3))]\<rparr>;
          m = m\<lparr>twist_covariance := (twist_covariance m)[14 := int_to_double (int_xor 10 6)]\<rparr>;
          m = m\<lparr>twist_covariance := (twist_covariance m)[21 := int_to_double (int_xor 10 6)]\<rparr>;
          m = m\<lparr>twist_covariance := (twist_covariance m)[28 := int_to_double (int_xor 10 6)]\<rparr>;
          m = m\<lparr>twist_covariance := (twist_covariance m)[35 := int_to_double (int_xor 10 3)]\<rparr>
      in m)"

text \<open>The pose a message publishes: position and yaw.\<close>

definition published_pose :: "Odometry \<Rightarrow> Pose2D" where
  "published_pose m = Pose2D_of (position_x m) (position_y m) (orientation_yaw m)"

section \<open>Nav2Remote: the stream and the ways a call can stop\<close>

text \<open>
  A call either returns or stops: by a C++ exception, or because the code has left
  defined behaviour (\<^verbatim>\<open>sprintf\<close> past the end of \<^verbatim>\<open>msg[128]\<close>, the read of a variable
  that \<^verbatim>\<open>sscanf\<close> never assigned, a \<^verbatim>\<open>%d\<close> conversion that does not fit an \<^verbatim>\<open>int\<close>).
\<close>

datatype exn = Bad_alloc | Invalid_argument string | Runtime_error string

datatype stop = Throws exn | Undefined

text \<open>
  What the process does to the outside, in order: the bytes a \<^verbatim>\<open>write\<close> call got
  accepted, and the microseconds of a \<^verbatim>\<open>usleep\<close> call.
\<close>

datatype event = Write string | Usleep nat

text \<open>
  The descriptor \<^verbatim>\<open>fd\<close> is modelled by what the stream does:
  \<^item> \<open>inp\<close> holds the bytes the peer delivers before the stream ends; \<^verbatim>\<open>read\<close> of one
    byte returns the next of them, and returns 0 or -1 once none is left;
  \<^item> \<open>room\<close> is the number of bytes the stream still accepts: a \<^verbatim>\<open>write\<close> of \<open>p\<close>
    bytes returns \<open>p\<close> while there is room for them and less otherwise (a \<^verbatim>\<open>write\<close>
    that fails with -1 and one that accepts nothing are the same to the callers,
    which only compare the result with \<open>p\<close>); \<open>\<infinity>\<close> is a stream that takes everything;
  \<^item> \<open>avail\<close> is the largest size \<^verbatim>\<open>realloc\<close> grants for the line buffer;
  \<^item> \<open>line\<close> holds the bytes the last \<^verbatim>\<open>readLine\<close> left in the buffer in front of the
    position \<^verbatim>\<open>pos\<close> it stopped at (the terminating zero is written there when a line
    is returned), and \<open>lineLen\<close> the size of the buffer.
  The peer's bytes are a finite list, so every loop that reads the stream ends. The
  counter \<^verbatim>\<open>pos\<close> and \<^verbatim>\<open>lineLen\<close> are \<^verbatim>\<open>int\<close> in the source and natural numbers here:
  a line of 2^31 bytes is outside the model.
\<close>

record Nav2Remote =
  line :: string
  lineLen :: nat
  inp :: string
  room :: enat
  avail :: enat
  trace :: "event list"

definition accepted :: "enat \<Rightarrow> nat \<Rightarrow> nat" where
  "accepted rm p = (case rm of enat k \<Rightarrow> min p k | \<infinity> \<Rightarrow> p)"

text \<open>\<^verbatim>\<open>write(fd, msg, p)\<close> with \<open>p\<close> the length of \<open>msg\<close>; returns the count.\<close>

definition fd_write :: "Nav2Remote \<Rightarrow> string \<Rightarrow> nat \<times> Nav2Remote" where
  "fd_write r msg =
     (let n = accepted (room r) (length msg)
      in (n, r\<lparr>room := room r - enat n, trace := trace r @ [Write (take n msg)]\<rparr>))"

definition usleep :: "nat \<Rightarrow> Nav2Remote \<Rightarrow> Nav2Remote" where
  "usleep us r = r\<lparr>trace := trace r @ [Usleep us]\<rparr>"

section \<open>Nav2Remote::readLine\<close>

definition NUL :: char where "NUL = CHR 0x00"
definition LF :: char where "LF = CHR 0x0A"
definition CR :: char where "CR = CHR 0x0D"

text \<open>
  \<open>grow\<close> is the block that enlarges the buffer when \<^verbatim>\<open>lineLen <= pos+1\<close>: the new
  size, or \<open>None\<close> when \<^verbatim>\<open>realloc\<close> returns null and \<^verbatim>\<open>std::bad_alloc\<close> is thrown.
  \<open>readLine_loop\<close> is the loop, by recursion on the bytes still to come. \<open>buf\<close> is the
  buffer in front of \<^verbatim>\<open>pos\<close>, so \<^verbatim>\<open>pos\<close> is its length. The result is the returned
  \<^verbatim>\<open>int\<close>, the buffer, the buffer size and the bytes not yet read. When a newline arrives
  at \<^verbatim>\<open>pos = 0\<close>, \<^verbatim>\<open>line[0]\<close> is the zero just written, which is neither sentinel.
\<close>

definition grow :: "enat \<Rightarrow> nat \<Rightarrow> nat \<Rightarrow> nat option" where
  "grow av len pos =
     (if len \<le> pos + 1 then (if av < enat (len + 32) then None else Some (len + 32))
      else Some len)"

fun readLine_loop :: "enat \<Rightarrow> nat \<Rightarrow> string \<Rightarrow> string \<Rightarrow> stop + (int \<times> string \<times> nat \<times> string)" where
  "readLine_loop av len buf [] =
     (case grow av len (length buf) of
        None \<Rightarrow> Inl (Throws Bad_alloc)
      | Some len1 \<Rightarrow> Inr (- 1, buf, len1, []))"
| "readLine_loop av len buf (c # cs) =
     (case grow av len (length buf) of
        None \<Rightarrow> Inl (Throws Bad_alloc)
      | Some len1 \<Rightarrow>
          if c = CR then readLine_loop av len1 buf cs
          else if c = LF then
            (if buf \<noteq> [] \<and> (hd buf = CHR ''|'' \<or> hd buf = CHR ''+'')
             then readLine_loop av len1 [] cs
             else Inr (int (length buf), buf, len1, cs))
          else readLine_loop av len1 (buf @ [c]) cs)"

definition readLine :: "Nav2Remote \<Rightarrow> stop + (int \<times> Nav2Remote)" where
  "readLine r =
     (case readLine_loop (avail r) (lineLen r) [] (inp r) of
        Inl e \<Rightarrow> Inl e
      | Inr (n, buf, len, rest) \<Rightarrow> Inr (n, r\<lparr>line := buf, lineLen := len, inp := rest\<rparr>))"

text \<open>The C string that starts at \<^verbatim>\<open>line\<close>: the bytes in front of the first zero.\<close>

definition c_str :: "string \<Rightarrow> string" where
  "c_str buf = takeWhile (\<lambda>c. c \<noteq> NUL) buf"

section \<open>Formatting: the conversion \<^verbatim>\<open>%lf\<close> of \<^verbatim>\<open>sprintf\<close>\<close>

text \<open>
  \<^verbatim>\<open>%lf\<close> prints a \<^verbatim>\<open>double\<close> in fixed notation with six digits after the point: a minus
  sign for a negative value, the integer part without leading zeros, the point, and six
  digits, the value being rounded to the nearest multiple of 10^-6 (a tie goes to the
  even neighbour). These functions belong to the C library; they are written here for
  the values of \<^typ>\<open>real\<close>.
\<close>

definition digit_char :: "nat \<Rightarrow> char" where
  "digit_char d = ''0123456789'' ! d"

fun decimal :: "nat \<Rightarrow> string" where
  "decimal n = (if n < 10 then [digit_char n] else decimal (n div 10) @ [digit_char (n mod 10)])"

declare decimal.simps [simp del]

definition round_half_even :: "real \<Rightarrow> int" where
  "round_half_even v =
     (let n = \<lfloor>v\<rfloor>; f = v - of_int n
      in if f < 1 / 2 then n else if 1 / 2 < f then n + 1 else if even n then n else n + 1)"

definition fmt_lf :: "real \<Rightarrow> string" where
  "fmt_lf v =
     (let n = nat (round_half_even (\<bar>v\<bar> * 10 ^ 6))
      in (if v < 0 then ''-'' else []) @ decimal (n div 10 ^ 6) @ ''.'' @
         map (\<lambda>i. digit_char (n div 10 ^ i mod 10)) [5, 4, 3, 2, 1, 0])"

section \<open>Nav2Remote: the write operations\<close>

text \<open>
  Every write operation is
  \<^verbatim>\<open>char msg[128]; int p = sprintf(msg, ...); return write(fd,msg,p) == p ? 0 : -1;\<close>.
  \<open>send_msg\<close> is that body for the formatted text \<open>msg\<close>: \<^verbatim>\<open>sprintf\<close> needs \<open>p + 1\<close>
  bytes of the 128.
\<close>

definition send_msg :: "Nav2Remote \<Rightarrow> string \<Rightarrow> stop + (int \<times> Nav2Remote)" where
  "send_msg r msg =
     (if 128 \<le> length msg then Inl Undefined
      else let (n, r1) = fd_write r msg
           in Inr ((if n = length msg then 0 else - 1), r1))"



definition setRelativeVelocity :: "Nav2Remote \<Rightarrow> real \<Rightarrow> real \<Rightarrow> real \<Rightarrow> stop + (int \<times> Nav2Remote)" where
  "setRelativeVelocity r vx vy turnRate =
     send_msg r (''v '' @ fmt_lf vx @ '' '' @ fmt_lf vy @ '' '' @
                 fmt_lf (turnRate * (180 / pi)) @ [LF])"



definition turnLeft :: "Nav2Remote \<Rightarrow> real \<Rightarrow> stop + (int \<times> Nav2Remote)" where
  "turnLeft r angle = send_msg r (''lt '' @ fmt_lf (angle * (180 / pi)) @ [LF])"

definition move :: "Nav2Remote \<Rightarrow> real \<Rightarrow> real \<Rightarrow> stop + (int \<times> Nav2Remote)" where
  "move r distance direction =
     send_msg r (''mv '' @ fmt_lf distance @ '' '' @ fmt_lf (direction * (180 / pi)) @ [LF])"

text \<open>
  The header defines three more operations inline, in terms of these (\<^verbatim>\<open>back\<close> is
  \<open>back_robot\<close> and \<^verbatim>\<open>stop\<close> is \<open>stop_robot\<close> here).
\<close>

definition turnRight :: "Nav2Remote \<Rightarrow> real \<Rightarrow> stop + (int \<times> Nav2Remote)" where
  "turnRight r angle = turnLeft r (- angle)"

definition forward :: "Nav2Remote \<Rightarrow> real \<Rightarrow> stop + (int \<times> Nav2Remote)" where
  "forward r distance = move r distance 0.0"

definition back_robot :: "Nav2Remote \<Rightarrow> real \<Rightarrow> stop + (int \<times> Nav2Remote)" where
  "back_robot r distance = forward r (- distance)"




section \<open>Scanning: the conversions \<^verbatim>\<open>%lf\<close> and \<^verbatim>\<open>%d\<close> of \<^verbatim>\<open>sscanf\<close>\<close>

text \<open>
  Both conversions skip white space, take an optional sign and then the longest run of
  digits (for \<^verbatim>\<open>%lf\<close> with an optional fraction and an optional decimal exponent), and
  fail when no digit is found; the text that follows stays for the next conversion.
  The hexadecimal, infinity and NaN forms of \<^verbatim>\<open>%lf\<close> are not modelled: on such a text
  \<open>scan_lf\<close> finds no number. A blank in the format matches any run of white space,
  which the conversion that follows skips anyway.
\<close>

definition isspace :: "char \<Rightarrow> bool" where
  "isspace c \<longleftrightarrow> c \<in> set [CHR '' '', CHR 0x09, CHR 0x0A, CHR 0x0B, CHR 0x0C, CHR 0x0D]"

definition isdigit :: "char \<Rightarrow> bool" where
  "isdigit c \<longleftrightarrow> c \<in> set ''0123456789''"

definition digit_val :: "char \<Rightarrow> nat" where
  "digit_val c = of_char c - 48"

definition digits_val :: "string \<Rightarrow> nat" where
  "digits_val ds = foldl (\<lambda>a c. 10 * a + digit_val c) 0 ds"

definition scan_sign :: "string \<Rightarrow> bool \<times> string" where
  "scan_sign s =
     (case s of
        [] \<Rightarrow> (False, [])
      | c # cs \<Rightarrow> if c = CHR ''-'' then (True, cs) else if c = CHR ''+'' then (False, cs)
                  else (False, s))"

definition scan_exp :: "real \<Rightarrow> string \<Rightarrow> real \<times> string" where
  "scan_exp m s =
     (case s of
        [] \<Rightarrow> (m, s)
      | c # cs \<Rightarrow>
          if c = CHR ''e'' \<or> c = CHR ''E'' then
            (let (eneg, t) = scan_sign cs; es = takeWhile isdigit t
             in if es = [] then (m, s)
                else ((if eneg then m / 10 ^ digits_val es else m * 10 ^ digits_val es),
                      dropWhile isdigit t))
          else (m, s))"

definition scan_frac :: "string \<Rightarrow> string \<times> string" where
  "scan_frac s =
     (case s of
        [] \<Rightarrow> ([], s)
      | c # cs \<Rightarrow> if c = CHR ''.'' then (takeWhile isdigit cs, dropWhile isdigit cs)
                  else ([], s))"

definition scan_lf :: "string \<Rightarrow> (real \<times> string) option" where
  "scan_lf s =
     (let (neg, s1) = scan_sign (dropWhile isspace s);
          ds = takeWhile isdigit s1;
          (fs, s3) = scan_frac (dropWhile isdigit s1);
          m = real (digits_val ds) + real (digits_val fs) / 10 ^ length fs;
          (m1, s4) = scan_exp m s3
      in if ds = [] \<and> fs = [] then None else Some ((if neg then - m1 else m1), s4))"

definition scan_d :: "string \<Rightarrow> (int \<times> string) option" where
  "scan_d s =
     (let (neg, s1) = scan_sign (dropWhile isspace s);
          ds = takeWhile isdigit s1
      in if ds = [] then None
         else Some ((if neg then - int (digits_val ds) else int (digits_val ds)),
                    dropWhile isdigit s1))"

text \<open>
  \<^verbatim>\<open>sscanf(line, "%lf %lf %lf %d", ...)\<close>: the conversions run in order and stop at the
  first that fails; a target that is not reached is not assigned (\<open>None\<close>). A \<^verbatim>\<open>%d\<close>
  whose value does not fit an \<^verbatim>\<open>int\<close> leaves defined behaviour.
\<close>

definition sscanf_lf3_d :: "string \<Rightarrow> stop + (real option \<times> real option \<times> real option \<times> int option)" where
  "sscanf_lf3_d s =
     (case scan_lf s of
        None \<Rightarrow> Inr (None, None, None, None)
      | Some (a, s1) \<Rightarrow>
          (case scan_lf s1 of
             None \<Rightarrow> Inr (Some a, None, None, None)
           | Some (b, s2) \<Rightarrow>
               (case scan_lf s2 of
                  None \<Rightarrow> Inr (Some a, Some b, None, None)
                | Some (c, s3) \<Rightarrow>
                    (case scan_d s3 of
                       None \<Rightarrow> Inr (Some a, Some b, Some c, None)
                     | Some (q, s4) \<Rightarrow>
                         if - (2 ^ 31) \<le> q \<and> q < 2 ^ 31
                         then Inr (Some a, Some b, Some c, Some q)
                         else Inl Undefined))))"

section \<open>Nav2Remote: the queries\<close>

text \<open>
  \<^verbatim>\<open>estimatePosition(double& x, double& y, double& orientation)\<close>: the three references
  come in with the caller's values and go out with the new ones; a target that
  \<^verbatim>\<open>sscanf\<close> did not assign keeps the caller's value, and \<^verbatim>\<open>orientation\<close> is scaled in
  either case.
\<close>

definition estimatePosition ::
  "Nav2Remote \<Rightarrow> real \<times> real \<times> real \<Rightarrow> stop + (int \<times> (real \<times> real \<times> real) \<times> Nav2Remote)" where
  "estimatePosition r xyo =
     (let (x, y, orientation) = xyo; (n, r1) = fd_write r (''q'' @ [LF])
      in if n \<noteq> 2 then Inr (- 1, xyo, r1)
         else case readLine r1 of
                Inl e \<Rightarrow> Inl e
              | Inr (rc, r2) \<Rightarrow>
                  if rc < 0 then Inr (- 1, xyo, r2)
                  else case sscanf_lf3_d (c_str (line r2)) of
                         Inl e \<Rightarrow> Inl e
                       | Inr (a, b, c, q) \<Rightarrow>
                           Inr (0, (case_option x id a, case_option y id b,
                                    case_option orientation id c * (pi / 180)), r2))"

text \<open>
  \<^verbatim>\<open>getQueueSize\<close> returns the local \<^verbatim>\<open>qlen\<close>, which has no initial value: when
  \<^verbatim>\<open>sscanf\<close> did not reach it, the read is undefined.
\<close>

definition getQueueSize :: "Nav2Remote \<Rightarrow> stop + (int \<times> Nav2Remote)" where
  "getQueueSize r =
     (let (n, r1) = fd_write r (''q'' @ [LF])
      in if n \<noteq> 2 then Inr (- 1, r1)
         else case readLine r1 of
                Inl e \<Rightarrow> Inl e
              | Inr (rc, r2) \<Rightarrow>
                  if rc < 0 then Inr (- 1, r2)
                  else case sscanf_lf3_d (c_str (line r2)) of
                         Inl e \<Rightarrow> Inl e
                       | Inr (a, b, c, q) \<Rightarrow>
                           (case q of None \<Rightarrow> Inl Undefined | Some qlen \<Rightarrow> Inr (qlen, r2)))"





section \<open>Nav2Remote::wait\<close>

text \<open>
  \<^verbatim>\<open>while(1) { int rc = getQueueSize(); if( rc < 1) return rc; usleep(100000); }\<close>.
  A poll that asks for another round has read a whole line, so the bytes still to come
  get fewer with every round: the loop is a total function of the model.
\<close>

lemma readLine_loop_consumes:
  "readLine_loop av len buf i = Inr (n, b, l, rest) \<Longrightarrow> 0 \<le> n \<Longrightarrow> length rest < length i"
proof (induction i arbitrary: len buf)
  case Nil
  then show ?case by (simp split: option.splits)
next
  case (Cons c cs)
  from Cons.prems(1) obtain len1 where g: "grow av len (length buf) = Some len1"
    by (cases "grow av len (length buf)") simp_all
  consider (cr) "c = CR"
    | (drop) "c \<noteq> CR" "c = LF" "buf \<noteq> [] \<and> (hd buf = CHR ''|'' \<or> hd buf = CHR ''+'')"
    | (ret) "c \<noteq> CR" "c = LF" "\<not> (buf \<noteq> [] \<and> (hd buf = CHR ''|'' \<or> hd buf = CHR ''+''))"
    | (ch) "c \<noteq> CR" "c \<noteq> LF"
    by blast
  then show ?case
  proof cases
    case cr
    with g Cons.prems(1) have "readLine_loop av len1 buf cs = Inr (n, b, l, rest)" by simp
    from Cons.IH [OF this Cons.prems(2)] show ?thesis by simp
  next
    case drop
    with g Cons.prems(1) have "readLine_loop av len1 [] cs = Inr (n, b, l, rest)" by simp
    from Cons.IH [OF this Cons.prems(2)] show ?thesis by simp
  next
    case ret
    with g Cons.prems(1) have "rest = cs" by auto
    then show ?thesis by simp
  next
    case ch
    with g Cons.prems(1) have "readLine_loop av len1 (buf @ [c]) cs = Inr (n, b, l, rest)" by simp
    from Cons.IH [OF this Cons.prems(2)] show ?thesis by simp
  qed
qed

lemma getQueueSize_consumes:
  assumes "getQueueSize r = Inr (rc, r1)" and "\<not> rc < 1"
  shows "length (inp r1) < length (inp r)"
proof -
  obtain n r0 where w: "fd_write r (''q'' @ [LF]) = (n, r0)"
    by (cases "fd_write r (''q'' @ [LF])")
  have i0: "inp r0 = inp r"
    using w by (auto simp: fd_write_def Let_def)
  from assms w have n2: "n = 2"
    by (auto simp: getQueueSize_def split: if_splits)
  with assms w obtain k r2 where rl: "readLine r0 = Inr (k, r2)"
    by (cases "readLine r0") (auto simp: getQueueSize_def)
  with assms w n2 have k0: "0 \<le> k" and r12: "r1 = r2"
    by (auto simp: getQueueSize_def split: if_splits sum.splits option.splits)
  from rl obtain b l rest where
    lp: "readLine_loop (avail r0) (lineLen r0) [] (inp r0) = Inr (k, b, l, rest)"
    and r2: "inp r2 = rest"
    by (auto simp: readLine_def split: sum.splits)
  from readLine_loop_consumes [OF lp k0] r2 r12 i0 show ?thesis by simp
qed

function wait :: "Nav2Remote \<Rightarrow> stop + (int \<times> Nav2Remote)" where
  "wait r =
     (case getQueueSize r of
        Inl e \<Rightarrow> Inl e
      | Inr (rc, r1) \<Rightarrow> if rc < 1 then Inr (rc, r1) else wait (usleep 100000 r1))"
  by pat_completeness auto
termination
proof (relation "measure (\<lambda>r. length (inp r))")
  show "wf (measure (\<lambda>r. length (inp r)))" by simp
next
  fix r x2 rc r1
  assume "getQueueSize r = Inr x2" and "(rc, r1) = x2" and "\<not> rc < 1"
  then have "length (inp r1) < length (inp r)"
    using getQueueSize_consumes [of r rc r1] by simp
  then show "(usleep 100000 r1, r) \<in> measure (\<lambda>r. length (inp r))"
    by (simp add: usleep_def)
qed

declare wait.simps [simp del]

section \<open>Nav2Remote: the constructor\<close>

text \<open>
  The network is an input. One \<open>resolution\<close> is what \<^verbatim>\<open>getaddrinfo\<close> answers to one
  constructor call: a failure, or the list of candidate addresses, each of which fails at
  \<^verbatim>\<open>socket\<close>, fails at \<^verbatim>\<open>connect\<close>, or connects to a stream (its bytes to come and
  its room). The constructor walks the candidates in order and keeps the first that
  connects.
\<close>

datatype candidate = Socket_fails | Connect_fails | Connects string enat

datatype resolution = Resolve_fails | Resolves "candidate list"

fun first_connection :: "candidate list \<Rightarrow> (string \<times> enat) option" where
  "first_connection [] = None"
| "first_connection (Socket_fails # rest) = first_connection rest"
| "first_connection (Connect_fails # rest) = first_connection rest"
| "first_connection (Connects i rm # rest) = Some (i, rm)"

text \<open>
  \<open>net\<close> lists the answers to the constructor calls still to come; when it is used up,
  resolution fails. The constructor returns the object or the exception, and the
  answers that are left. \<open>Nav2Remote_init\<close> is the object a successful constructor
  leaves: no buffer yet, nothing written, and \<open>mem\<close> as its \<open>avail\<close>.
\<close>

definition Nav2Remote_init :: "string \<Rightarrow> enat \<Rightarrow> enat \<Rightarrow> Nav2Remote" where
  "Nav2Remote_init i rm mem =
     \<lparr>line = [], lineLen = 0, inp = i, room = rm, avail = mem, trace = []\<rparr>"

definition Nav2Remote_new ::
  "string \<Rightarrow> int \<Rightarrow> enat \<Rightarrow> resolution list \<Rightarrow> (exn + Nav2Remote) \<times> resolution list" where
  "Nav2Remote_new host port mem net =
     (if port < 1 \<or> port > 65535 then (Inl (Invalid_argument ''Invalid port''), net)
      else case net of
             [] \<Rightarrow> (Inl (Runtime_error (''Can'' @ [CHR 0x27] @ ''t get address info'')), [])
           | Resolve_fails # net1 \<Rightarrow>
               (Inl (Runtime_error (''Can'' @ [CHR 0x27] @ ''t get address info'')), net1)
           | Resolves cs # net1 \<Rightarrow>
               (case first_connection cs of
                  None \<Rightarrow> (Inl (Runtime_error (''Can'' @ [CHR 0x27] @ ''t connect to robot'')), net1)
                | Some (i, rm) \<Rightarrow> (Inr (Nav2Remote_init i rm mem), net1)))"

section \<open>Nav2Driver\<close>

text \<open>
  The state of the driver node, with its inputs (\<open>net\<close>, \<open>mem\<close>, and the clock: the
  \<open>k\<close>-th call of \<^verbatim>\<open>ros::Time::now()\<close> returns \<open>clock k\<close>) and its outputs (\<open>odom_pub\<close>,
  the messages handed to \<^verbatim>\<open>odom_pub_.publish\<close>, and \<open>slept\<close>, the seconds of each
  \<^verbatim>\<open>ros::Duration(...).sleep()\<close>). Logging and the transform broadcast are left out.
  \<open>net\<close> is a finite list, so the reconnect loops of the model end: with an exception
  once the network only refuses.
\<close>

record Nav2Driver =
  remote :: "Nav2Remote option"
  base_odom :: BaseOdometry
  robot_address :: string
  robot_port :: int
  robot_prefix :: string
  invert_odom :: bool
  odom_pub :: "Odometry list"
  slept :: "real list"
  net :: "resolution list"
  mem :: enat
  clock :: "nat \<Rightarrow> real"
  clock_reads :: nat

definition now :: "Nav2Driver \<Rightarrow> real \<times> Nav2Driver" where
  "now d = (clock d (clock_reads d), d\<lparr>clock_reads := Suc (clock_reads d)\<rparr>)"

text \<open>
  The retry loop of \<^verbatim>\<open>connect\<close>:
  \<^verbatim>\<open>for(int retry = 0; retry < 5; retry++){ try{ remote_ = ...; return; } catch(std::exception& e){ ...sleep(); } }\<close>
  followed by the \<^verbatim>\<open>throw std::runtime_error\<close>.
\<close>

function connect_loop :: "nat \<Rightarrow> Nav2Driver \<Rightarrow> stop + Nav2Driver" where
  "connect_loop retry d =
     (if retry < 5 then
        (case Nav2Remote_new (robot_address d) (robot_port d) (mem d) (net d) of
           (Inr r, net1) \<Rightarrow> Inr (d\<lparr>remote := Some r, net := net1\<rparr>)
         | (Inl e, net1) \<Rightarrow> connect_loop (retry + 1) (d\<lparr>net := net1, slept := slept d @ [0.2]\<rparr>))
      else Inl (Throws (Runtime_error ''Failed to connect to Nav2 base'')))"
  by pat_completeness auto
termination
  by (relation "measure (\<lambda>(retry, d). 5 - retry)") auto

declare connect_loop.simps [simp del]

text \<open>
  \<^verbatim>\<open>connect\<close>: when a connection exists it is dropped, and the integrator is replaced by
  \<^verbatim>\<open>BaseOdometry(offset)\<close> with \<^verbatim>\<open>offset = base_odom_.getPose()\<close>.
\<close>

definition connect :: "Nav2Driver \<Rightarrow> stop + Nav2Driver" where
  "connect d =
     (let d1 = (if remote d \<noteq> None then
                  (let d2 = d\<lparr>remote := None\<rparr>;
                       off = getPose (base_odom d2);
                       (t, d3) = now d2
                   in d3\<lparr>base_odom := BaseOdometry_with off t\<rparr>)
                else d)
      in connect_loop 0 d1)"

lemma connect_loop_consumes:
  "connect_loop retry d = Inr d1 \<Longrightarrow> length (net d1) < length (net d)"
proof (induction retry d rule: connect_loop.induct)
  case (1 retry d)
  from "1.prems" have lt: "retry < 5"
    by (subst (asm) connect_loop.simps) (simp split: if_splits)
  obtain res net1 where c: "Nav2Remote_new (robot_address d) (robot_port d) (mem d) (net d) = (res, net1)"
    by (cases "Nav2Remote_new (robot_address d) (robot_port d) (mem d) (net d)")
  have le: "length net1 \<le> length (net d)"
    using c by (auto simp: Nav2Remote_new_def split: if_splits list.splits resolution.splits option.splits)
  show ?case
  proof (cases res)
    case (Inl e)
    with "1.prems" lt c have "connect_loop (retry + 1) (d\<lparr>net := net1, slept := slept d @ [0.2]\<rparr>) = Inr d1"
      by (subst (asm) connect_loop.simps) simp
    from "1.IH" [OF lt c [symmetric] Inl this] le show ?thesis by simp
  next
    case (Inr r)
    with c have "length net1 < length (net d)"
      by (auto simp: Nav2Remote_new_def split: if_splits list.splits resolution.splits option.splits)
    moreover from "1.prems" lt c Inr have "net d1 = net1"
      by (subst (asm) connect_loop.simps) auto
    ultimately show ?thesis by simp
  qed
qed

lemma connect_consumes:
  assumes "connect d = Inr d1"
  shows "length (net d1) < length (net d)"
proof (cases "remote d")
  case None
  with assms have "connect_loop 0 d = Inr d1"
    by (simp add: connect_def)
  from connect_loop_consumes [OF this] show ?thesis .
next
  case (Some r)
  let ?d = "(d\<lparr>remote := None, clock_reads := Suc (clock_reads d)\<rparr>)
              \<lparr>base_odom := BaseOdometry_with (getPose (base_odom d)) (clock d (clock_reads d))\<rparr>"
  from Some assms have "connect_loop 0 ?d = Inr d1"
    by (simp add: connect_def now_def Let_def)
  from connect_loop_consumes [OF this] show ?thesis by simp
qed

text \<open>
  \<^verbatim>\<open>publishOdometry\<close>: the loop
  \<^verbatim>\<open>while(!remote_ || remote_->estimatePosition(data.x, data.y, data.th) < 0) connect(...)\<close>,
  then the update of the integrator and the publication of its message. \<open>ov\<close> is the
  overload of \<^verbatim>\<open>abs\<close> that the subtraction of poses sees.
\<close>

function publishOdometry_loop :: "Nav2Driver \<Rightarrow> Pose2D \<Rightarrow> stop + (Pose2D \<times> Nav2Driver)" where
  "publishOdometry_loop d data =
     (case remote d of
        None \<Rightarrow> (case connect d of Inl e \<Rightarrow> Inl e | Inr d1 \<Rightarrow> publishOdometry_loop d1 data)
      | Some r \<Rightarrow>
          (case estimatePosition r (px data, py data, pth data) of
             Inl e \<Rightarrow> Inl e
           | Inr (rc, (x1, y1, th1), r1) \<Rightarrow>
               if rc < 0 then
                 (case connect (d\<lparr>remote := Some r1\<rparr>) of
                    Inl e \<Rightarrow> Inl e
                  | Inr d1 \<Rightarrow> publishOdometry_loop d1 (Pose2D_of x1 y1 th1))
               else Inr (Pose2D_of x1 y1 th1, d\<lparr>remote := Some r1\<rparr>)))"
  by pat_completeness auto
termination
proof (relation "measure (\<lambda>(d, data). length (net d))")
  show "wf (measure (\<lambda>(d, data). length (net d)))" by simp
next
  fix d :: Nav2Driver and data :: Pose2D and d1
  assume "connect d = Inr d1"
  then show "((d1, data), d, data) \<in> measure (\<lambda>(d, data). length (net d))"
    by (simp add: connect_consumes)
next
  fix d :: Nav2Driver and data :: Pose2D and r1 :: Nav2Remote and d1 x1 y1 th1
  assume "connect (d\<lparr>remote := Some r1\<rparr>) = Inr d1"
  then show "((d1, Pose2D_of x1 y1 th1), d, data) \<in> measure (\<lambda>(d, data). length (net d))"
    using connect_consumes [of "d\<lparr>remote := Some r1\<rparr>" d1] by simp
qed

declare publishOdometry_loop.simps [simp del]

definition publishOdometry ::
  "abs_overload \<Rightarrow> Nav2Driver \<Rightarrow> bool \<Rightarrow> string \<Rightarrow> stop + Nav2Driver" where
  "publishOdometry ov d invert prefix =
     (case publishOdometry_loop d Pose2D_zero of
        Inl e \<Rightarrow> Inl e
      | Inr (data, d1) \<Rightarrow>
          (let (t1, d2) = now d1;
               (t2, d3) = now d2;
               bo = updateWithAbsolute ov (base_odom d3) data t1 t2
           in Inr (d3\<lparr>base_odom := bo, odom_pub := odom_pub d3 @ [getMessage bo prefix]\<rparr>)))"

text \<open>
  The command that \<^verbatim>\<open>setVelocity\<close> receives: the three fields of
  \<^verbatim>\<open>geometry_msgs::Twist\<close> it reads. \<open>atan2\<close> is the function of the C library on
  \<^typ>\<open>real\<close>; \<^verbatim>\<open>pow(v, 2)\<close> is the square.
\<close>

record Twist =
  linear_x :: real
  linear_y :: real
  angular_z :: real

definition atan2 :: "real \<Rightarrow> real \<Rightarrow> real" where
  "atan2 y x =
     (if 0 < x then arctan (y / x)
      else if x < 0 then (if 0 \<le> y then arctan (y / x) + pi else arctan (y / x) - pi)
      else if 0 < y then pi / 2 else if y < 0 then - (pi / 2) else 0)"

function setVelocity_loop :: "Nav2Driver \<Rightarrow> real \<Rightarrow> real \<Rightarrow> real \<Rightarrow> stop + Nav2Driver" where
  "setVelocity_loop d vn vs w =
     (case remote d of
        None \<Rightarrow> (case connect d of Inl e \<Rightarrow> Inl e | Inr d1 \<Rightarrow> setVelocity_loop d1 vn vs w)
      | Some r \<Rightarrow>
          (case setRelativeVelocity r vn vs w of
             Inl e \<Rightarrow> Inl e
           | Inr (rc, r1) \<Rightarrow>
               if rc < 0 then
                 (case connect (d\<lparr>remote := Some r1\<rparr>) of
                    Inl e \<Rightarrow> Inl e
                  | Inr d1 \<Rightarrow> setVelocity_loop d1 vn vs w)
               else Inr (d\<lparr>remote := Some r1\<rparr>)))"
  by pat_completeness auto
termination
proof (relation "measure (\<lambda>(d, vn, vs, w). length (net d))")
  show "wf (measure (\<lambda>(d, vn, vs, w). length (net d)))" by simp
next
  fix d :: Nav2Driver and vn vs w :: real and d1
  assume "connect d = Inr d1"
  then show "((d1, vn, vs, w), d, vn, vs, w) \<in> measure (\<lambda>(d, vn, vs, w). length (net d))"
    by (simp add: connect_consumes)
next
  fix d :: Nav2Driver and vn vs w :: real and r1 :: Nav2Remote and d1
  assume "connect (d\<lparr>remote := Some r1\<rparr>) = Inr d1"
  then show "((d1, vn, vs, w), d, vn, vs, w) \<in> measure (\<lambda>(d, vn, vs, w). length (net d))"
    using connect_consumes [of "d\<lparr>remote := Some r1\<rparr>" d1] by simp
qed

declare setVelocity_loop.simps [simp del]

definition setVelocity :: "Nav2Driver \<Rightarrow> Twist \<Rightarrow> stop + Nav2Driver" where
  "setVelocity d twist =
     (let vs = sqrt ((linear_x twist) ^ 2 + (linear_y twist) ^ 2);
          vn = atan2 (linear_y twist) (linear_x twist) * (180 / pi)
      in setVelocity_loop d vn vs (angular_z twist))"

text \<open>
  The constructor of the node. The members are initialised first (\<^verbatim>\<open>base_odom_\<close> reads the
  clock), then the body takes the parameters, which come from the parameter server and
  are arguments here, and connects. The timer then calls \<^verbatim>\<open>publishOdometry\<close> with the
  node's \<^verbatim>\<open>invert_odom_\<close> and \<^verbatim>\<open>robot_prefix_\<close>; \<open>ticks ov n\<close> is \<open>n\<close> such calls in a row.
\<close>

definition Nav2Driver_new ::
  "string \<Rightarrow> int \<Rightarrow> string \<Rightarrow> bool \<Rightarrow> resolution list \<Rightarrow> enat \<Rightarrow> (nat \<Rightarrow> real) \<Rightarrow> stop + Nav2Driver" where
  "Nav2Driver_new address port robot_name invert nt mm clk =
     (let d = \<lparr>remote = None, base_odom = BaseOdometry_new (clk 0),
               robot_address = address, robot_port = port,
               robot_prefix = (if robot_name \<noteq> [] then robot_name @ ''_'' else []),
               invert_odom = invert, odom_pub = [], slept = [],
               net = nt, mem = mm, clock = clk, clock_reads = 1\<rparr>
      in if address = [] then Inl (Throws (Runtime_error ''Please provide address for Nav2''))
         else connect d)"

fun ticks :: "abs_overload \<Rightarrow> nat \<Rightarrow> Nav2Driver \<Rightarrow> stop + Nav2Driver" where
  "ticks ov 0 d = Inr d"
| "ticks ov (Suc n) d =
     (case publishOdometry ov d (invert_odom d) (robot_prefix d) of
        Inl e \<Rightarrow> Inl e
      | Inr d1 \<Rightarrow> ticks ov n d1)"

text \<open>The poses of the messages a run has published, in order.\<close>

definition published :: "stop + Nav2Driver \<Rightarrow> stop + Pose2D list" where
  "published res = map_sum id (\<lambda>d. map published_pose (odom_pub d)) res"

section \<open>The response line of the wire protocol, in the words of the spec\<close>

text \<open>
  The spec gives the answer to \<^verbatim>\<open>q\<close> as the line \<^verbatim>\<open><x> <y> <theta_deg> <queueDepth>\<close>.
  These definitions are not taken from the code: they describe such a line, for the
  code to be compared with. A \<open>numeral_text\<close> is a decimal numeral as the device writes
  it (a sign, digits, and digits after the point when there are any), \<open>numeral_string\<close>
  its text and \<open>numeral_value\<close> the number it denotes; \<open>depth_value\<close> is the integer that
  a numeral without a fraction denotes. \<open>response_line\<close> joins four of them with single
  blanks; the queue depth is a numeral without a fraction that fits an \<^verbatim>\<open>int\<close>.
\<close>

datatype numeral_text = Numeral_text (negative: bool) (int_digits: string) (frac_digits: string)

definition wf_numeral :: "numeral_text \<Rightarrow> bool" where
  "wf_numeral t \<longleftrightarrow>
     int_digits t \<noteq> [] \<and> list_all isdigit (int_digits t) \<and> list_all isdigit (frac_digits t)"

definition numeral_string :: "numeral_text \<Rightarrow> string" where
  "numeral_string t =
     (if negative t then ''-'' else []) @ int_digits t @
     (if frac_digits t = [] then [] else CHR ''.'' # frac_digits t)"

definition numeral_value :: "numeral_text \<Rightarrow> real" where
  "numeral_value t =
     (if negative t then - 1 else 1) *
     (real (digits_val (int_digits t)) +
      real (digits_val (frac_digits t)) / 10 ^ length (frac_digits t))"

definition depth_value :: "numeral_text \<Rightarrow> int" where
  "depth_value t =
     (if negative t then - int (digits_val (int_digits t)) else int (digits_val (int_digits t)))"

definition wf_depth :: "numeral_text \<Rightarrow> bool" where
  "wf_depth t \<longleftrightarrow>
     wf_numeral t \<and> frac_digits t = [] \<and> - (2 ^ 31) \<le> depth_value t \<and> depth_value t < 2 ^ 31"

record response =
  rx :: numeral_text
  ry :: numeral_text
  rtheta_deg :: numeral_text
  rdepth :: numeral_text

definition wf_response :: "response \<Rightarrow> bool" where
  "wf_response p \<longleftrightarrow>
     wf_numeral (rx p) \<and> wf_numeral (ry p) \<and> wf_numeral (rtheta_deg p) \<and> wf_depth (rdepth p)"

definition response_line :: "response \<Rightarrow> string" where
  "response_line p =
     numeral_string (rx p) @ '' '' @ numeral_string (ry p) @ '' '' @
     numeral_string (rtheta_deg p) @ '' '' @ numeral_string (rdepth p)"

text \<open>
  \<open>idle_reply ds\<close> is the response of a robot at its origin whose queue depth is written
  with the digits \<open>ds\<close>.
\<close>

definition idle_reply :: "string \<Rightarrow> response" where
  "idle_reply ds =
     \<lparr>rx = Numeral_text False ''0'' [], ry = Numeral_text False ''0'' [],
      rtheta_deg = Numeral_text False ''0'' [], rdepth = Numeral_text False ds []\<rparr>"

section \<open>What a caller sees of a result\<close>

text \<open>
  \<open>returned\<close> keeps of the result of \<^verbatim>\<open>readLine\<close> what its callers use: the returned
  \<^verbatim>\<open>int\<close>, the line and the bytes still to come. \<open>forget_len\<close> does the same for the
  loop. The size of the buffer is left out.
\<close>

definition returned :: "stop + (int \<times> Nav2Remote) \<Rightarrow> stop + (int \<times> string \<times> string)" where
  "returned res = map_sum id (\<lambda>(n, r). (n, line r, inp r)) res"

definition forget_len ::
  "stop + (int \<times> string \<times> nat \<times> string) \<Rightarrow> stop + (int \<times> string \<times> string)" where
  "forget_len res = map_sum id (\<lambda>(n, b, l, rest). (n, b, rest)) res"

section \<open>Bounds on \<open>pi\<close>\<close>

text \<open>
  The partial sums of the alternating series of the arc tangent enclose it; with
  Machin's formula this gives \<open>pi\<close> to two decimals.
\<close>

lemma arctan_alternating_bounds:
  fixes x :: real
  assumes x0: "0 \<le> x" and x1: "x \<le> 1"
  shows "(\<Sum>k<2 * n. (- 1) ^ k * (1 / real (k * 2 + 1) * x ^ (k * 2 + 1))) \<le> arctan x"
    and "arctan x \<le> (\<Sum>k<2 * n + 1. (- 1) ^ k * (1 / real (k * 2 + 1) * x ^ (k * 2 + 1)))"
proof -
  define a where "a k = 1 / real (k * 2 + 1) * x ^ (k * 2 + 1)" for k
  have ax: "\<bar>x\<bar> \<le> 1" using x0 x1 by simp
  have lim: "a \<longlonglongrightarrow> 0"
    unfolding a_def using zeroseq_arctan_series [OF ax] .
  have pos: "0 \<le> a k" for k
    unfolding a_def using x0 by simp
  have dec: "a (Suc k) \<le> a k" for k
  proof -
    have p: "x ^ (Suc k * 2 + 1) \<le> x ^ (k * 2 + 1)"
      using x0 x1 by (intro power_decreasing) simp_all
    have q: "1 / real (Suc k * 2 + 1) \<le> 1 / real (k * 2 + 1)"
      by (simp add: field_simps)
    show ?thesis
      unfolding a_def using p q x0 by (intro mult_mono) simp_all
  qed
  have s: "arctan x = (\<Sum>k. (- 1) ^ k * a k)"
    unfolding a_def using arctan_series [OF ax] .
  show "(\<Sum>k<2 * n. (- 1) ^ k * (1 / real (k * 2 + 1) * x ^ (k * 2 + 1))) \<le> arctan x"
    using summable_Leibniz'(2) [OF lim pos dec, of n] unfolding s a_def .
  show "arctan x \<le> (\<Sum>k<2 * n + 1. (- 1) ^ k * (1 / real (k * 2 + 1) * x ^ (k * 2 + 1)))"
    using summable_Leibniz'(4) [OF lim pos dec, of n] unfolding s a_def .
qed

lemma pi_bounds: "314 / 100 < pi" "pi < 3145 / 1000"
proof -
  have m: "pi = 16 * arctan (1 / 5) - 4 * arctan (1 / 239)"
    using machin by simp
  have l5: "1 / 5 - 1 / 375 \<le> arctan (1 / 5)"
    using arctan_alternating_bounds(1) [of "1 / 5" 1] by (simp add: eval_nat_numeral)
  have u5: "arctan (1 / 5) \<le> 1 / 5 - 1 / 375 + 1 / 15625"
    using arctan_alternating_bounds(2) [of "1 / 5" 1] by (simp add: eval_nat_numeral)
  have u239: "arctan (1 / 239) \<le> 1 / 239"
    using arctan_alternating_bounds(2) [of "1 / 239" 0] by simp
  have l239: "1 / 239 - 1 / (3 * 239 ^ 3) \<le> arctan (1 / 239)"
    using arctan_alternating_bounds(1) [of "1 / 239" 1] by (simp add: eval_nat_numeral)
  show "314 / 100 < pi" using l5 u239 unfolding m by simp
  show "pi < 3145 / 1000" using u5 l239 unfolding m by simp
qed

section \<open>The integrator: what is stored as the previous sample\<close>

lemma c_abs_zero [simp]: "c_abs ov 0 = 0"
  by (cases ov) (simp_all add: c_abs_def double_to_int_def)

lemma updateWithAbsolute_prev:
  "prev (updateWithAbsolute ov bo s now1 now2) = Pose2D_minuseq ov s (prev bo)"
  by (simp add: updateWithAbsolute_def updateWithRelative_def Pose2D_minus_def Let_def)

lemma updateWithAbsolute_pose:
  "pose (updateWithAbsolute ov bo s now1 now2) =
     Pose2D_pluseq (pose bo) (Pose2D_minuseq ov s (prev bo))"
  by (simp add: updateWithAbsolute_def updateWithRelative_def Pose2D_minus_def Let_def)

lemma updateWithAbsolute_offset:
  "offset (updateWithAbsolute ov bo s now1 now2) = offset bo"
  by (simp add: updateWithAbsolute_def updateWithRelative_def Pose2D_minus_def Let_def)

text \<open>
  C1. The claim: after \<^verbatim>\<open>updateWithAbsolute(s)\<close> the stored previous sample equals \<open>s\<close>.
  The code stores the delta: \<^verbatim>\<open>abs - prev_\<close> subtracts in place, so \<^verbatim>\<open>prev_ = abs\<close>
  copies the difference. A fresh integrator that receives the sample \<open>(1, 0, 0)\<close> and
  then the sample \<open>(3, 0, 0)\<close> ends with \<open>(2, 0, 0)\<close> as its previous sample, not with
  \<open>(3, 0, 0)\<close>, whichever overload of \<^verbatim>\<open>abs\<close> is seen.
\<close>

theorem updateWithAbsolute_stores_delta:
  "prev (updateWithAbsolute ov
           (updateWithAbsolute ov (BaseOdometry_new 0) (Pose2D_of 1 0 0) 1 1)
           (Pose2D_of 3 0 0) 2 2) = Pose2D_of 2 0 0
   \<and> Pose2D_of 2 0 0 \<noteq> Pose2D_of 3 0 0"
  by (simp add: updateWithAbsolute_prev BaseOdometry_new_def Pose2D_minuseq_def
      Pose2D_of_def Pose2D_zero_def)

section \<open>The wrap-around correction of the delta\<close>

lemma c_abs_small:
  "\<not> pi < c_abs ov 1" "\<not> pi < c_abs ov 2" "\<not> pi < c_abs ov 3"
proof -
  have "3 < pi" using pi_bounds by simp
  then show "\<not> pi < c_abs ov 1" "\<not> pi < c_abs ov 2" "\<not> pi < c_abs ov 3"
    by (cases ov; simp add: c_abs_def double_to_int_def)+
qed

lemma c_abs_large:
  "pi < c_abs ov (- (51 / 10))" "pi < c_abs ov (- (61 / 10))"
proof -
  have "pi < 4" by (rule pi_less_4)
  then show "pi < c_abs ov (- (51 / 10))" "pi < c_abs ov (- (61 / 10))"
    by (cases ov; simp add: c_abs_def double_to_int_def)+
qed

text \<open>
  The operator itself, on a sample \<open>a\<close> and the sample \<open>b\<close> before it: with the
  \<^verbatim>\<open>double\<close> overload the theta of \<^verbatim>\<open>a - b\<close> is the raw difference when its magnitude is
  at most \<open>pi\<close>, and otherwise \<open>2 * pi\<close> is added when the theta of \<open>b\<close> is positive and
  subtracted when it is not. With the \<^verbatim>\<open>int\<close> overload a difference between \<open>pi\<close> and 4
  is not corrected.
\<close>

lemma Pose2D_minus_theta:
  "pth (fst (Pose2D_minus Abs_double a b)) =
     (if pi < \<bar>pth a - pth b\<bar>
      then (if 0 < pth b then (pth a - pth b) + 2 * pi else (pth a - pth b) - 2 * pi)
      else pth a - pth b)"
  by (simp add: Pose2D_minus_def Pose2D_minuseq_def c_abs_def Let_def)

lemma int_abs_skips_correction:
  "pi < \<bar>- 1.9 - 2\<bar>"
  "pth (fst (Pose2D_minus Abs_int (Pose2D_of x1 y1 (- 1.9)) (Pose2D_of x2 y2 2))) = - 3.9"
  "pth (fst (Pose2D_minus Abs_double (Pose2D_of x1 y1 (- 1.9)) (Pose2D_of x2 y2 2))) = 2 * pi - 3.9"
proof -
  have b: "3 < pi" "pi < 39 / 10" using pi_bounds by simp_all
  from b show "pi < \<bar>- 1.9 - 2\<bar>" by simp
  from b show "pth (fst (Pose2D_minus Abs_int (Pose2D_of x1 y1 (- 1.9)) (Pose2D_of x2 y2 2))) = - 3.9"
    by (simp add: Pose2D_minus_def Pose2D_minuseq_def Pose2D_of_def c_abs_def double_to_int_def
        Let_def)
  from b show "pth (fst (Pose2D_minus Abs_double (Pose2D_of x1 y1 (- 1.9)) (Pose2D_of x2 y2 2))) = 2 * pi - 3.9"
    by (simp add: Pose2D_minus_def Pose2D_minuseq_def Pose2D_of_def c_abs_def Let_def)
qed

text \<open>
  The first two samples of a fresh integrator: \<^verbatim>\<open>prev_\<close> is zero at the first, so the
  delta it stores is the first sample, and the second delta is computed against it.
\<close>

lemma first_pair_delta_theta:
  "pth (pose (updateWithAbsolute ov
               (updateWithAbsolute ov (BaseOdometry_new t0) (Pose2D_of x1 y1 3.0) t1 t2)
               (Pose2D_of x2 y2 (- 3.1)) t3 t4)) -
   pth (pose (updateWithAbsolute ov (BaseOdometry_new t0) (Pose2D_of x1 y1 3.0) t1 t2)) =
     2 * pi - 6.1"
  by (simp add: updateWithAbsolute_pose updateWithAbsolute_prev BaseOdometry_new_def
      Pose2D_minuseq_def Pose2D_pluseq_def Pose2D_of_def Pose2D_zero_def c_abs_small c_abs_large)

text \<open>
  C2. The claim: for every pair of consecutive samples the delta is the wrap-corrected
  difference of the two, so that theta 3.0 followed by theta -3.1 gives a delta of
  magnitude about 0.18 (\<open>2 * pi - 6.1\<close>). The integrator subtracts \<^verbatim>\<open>prev_\<close>, which from
  the second update on holds the last delta and not the last sample (C1). A fresh
  integrator receives theta 1.0, then 3.0, then -3.1, one second apart. After the second
  sample the accumulated theta is 3; for the pair 3.0, -3.1 the integrator adds
  \<open>2 * pi - 5.1\<close> to the pose and reports it as the angular velocity: a turn of about
  1.18, not of about 0.18, whichever overload of \<^verbatim>\<open>abs\<close> is seen.
\<close>

theorem later_pair_delta_theta:
  "(let bo1 = updateWithAbsolute ov (BaseOdometry_new 0) (Pose2D_of 0 0 1.0) 1 1;
        bo2 = updateWithAbsolute ov bo1 (Pose2D_of 0 0 3.0) 2 2;
        bo3 = updateWithAbsolute ov bo2 (Pose2D_of 0 0 (- 3.1)) 3 3
    in pth (pose bo2) = 3
       \<and> pth (pose bo3) - pth (pose bo2) = 2 * pi - 5.1
       \<and> map_option pth (vel bo3) = Some (2 * pi - 5.1))
   \<and> 1.18 < \<bar>2 * pi - 5.1\<bar> \<and> \<bar>2 * pi - 5.1\<bar> < 1.19
   \<and> 0.18 < \<bar>2 * pi - 6.1\<bar> \<and> \<bar>2 * pi - 6.1\<bar> < 0.19"
proof -
  have size: "1.18 < \<bar>2 * pi - 5.1\<bar>" "\<bar>2 * pi - 5.1\<bar> < 1.19"
    "0.18 < \<bar>2 * pi - 6.1\<bar>" "\<bar>2 * pi - 6.1\<bar> < 0.19"
    using pi_bounds by simp_all
  have run: "(let bo1 = updateWithAbsolute ov (BaseOdometry_new 0) (Pose2D_of 0 0 1.0) 1 1;
        bo2 = updateWithAbsolute ov bo1 (Pose2D_of 0 0 3.0) 2 2;
        bo3 = updateWithAbsolute ov bo2 (Pose2D_of 0 0 (- 3.1)) 3 3
    in pth (pose bo2) = 3
       \<and> pth (pose bo3) - pth (pose bo2) = 2 * pi - 5.1
       \<and> map_option pth (vel bo3) = Some (2 * pi - 5.1))"
    by (simp add: updateWithAbsolute_def updateWithRelative_def Pose2D_minus_def
        Pose2D_minuseq_def Pose2D_pluseq_def Pose2D_div_def Pose2D_diveq_def
        BaseOdometry_new_def Pose2D_of_def Pose2D_zero_def c_abs_small c_abs_large Let_def)
  from run size show ?thesis by blast
qed

section \<open>The covariance of the message\<close>

lemma xor_constants:
  "int_to_double (int_xor 10 (- 3)) = - 9"
  "int_to_double (int_xor 10 6) = 12"
  "int_to_double (int_xor 10 3) = 9"
  by (simp_all add: int_to_double_def int_xor_def)

text \<open>
  C4. The claim: the diagonal entries for x, y and yaw are small positive constants and
  those for z, roll and pitch are large positive constants. For every integrator state,
  the message of the code carries \<open>-9\<close> for x and for y, \<open>12\<close> for z, roll and pitch,
  and \<open>9\<close> for yaw, in both covariances: \<^verbatim>\<open>10^-3\<close>, \<^verbatim>\<open>10^6\<close> and \<^verbatim>\<open>10^3\<close> are exclusive
  ors, not powers. The entries off the diagonal are zero.
\<close>

theorem getMessage_covariance_xor:
  "pose_covariance (getMessage bo pfx) =
     [- 9, 0, 0, 0, 0, 0,
      0, - 9, 0, 0, 0, 0,
      0, 0, 12, 0, 0, 0,
      0, 0, 0, 12, 0, 0,
      0, 0, 0, 0, 12, 0,
      0, 0, 0, 0, 0, 9]
   \<and> twist_covariance (getMessage bo pfx) = pose_covariance (getMessage bo pfx)"
  by (simp add: getMessage_def Odometry_new_def xor_constants eval_nat_numeral)

section \<open>The line reader and the chatter lines\<close>

lemma grow_unbounded: "grow \<infinity> len pos = Some (if len \<le> pos + 1 then len + 32 else len)"
  by (simp add: grow_def)

lemma readLine_loop_len_irrelevant:
  "forget_len (readLine_loop \<infinity> len buf i) = forget_len (readLine_loop \<infinity> len' buf i)"
proof (induction i arbitrary: len len' buf)
  case Nil
  show ?case by (simp add: grow_unbounded forget_len_def)
next
  case (Cons c cs)
  show ?case
    using Cons.IH by (simp add: grow_unbounded forget_len_def)
qed

lemma readLine_loop_never_chatter:
  "readLine_loop av len buf i = Inr (n, b, l, rest) \<Longrightarrow> 0 \<le> n \<Longrightarrow>
     b = [] \<or> (hd b \<noteq> CHR ''|'' \<and> hd b \<noteq> CHR ''+'')"
proof (induction i arbitrary: len buf)
  case Nil
  then show ?case by (simp split: option.splits)
next
  case (Cons c cs)
  then show ?case
    by (auto split: option.splits if_splits)
qed

lemma readLine_loop_discards:
  assumes "buf \<noteq> []" and "hd buf = CHR ''|'' \<or> hd buf = CHR ''+''" and "LF \<notin> set l"
  shows "forget_len (readLine_loop \<infinity> len buf (l @ LF # rest)) =
         forget_len (readLine_loop \<infinity> len' [] rest)"
  using assms
proof (induction l arbitrary: len buf)
  case Nil
  then show ?case
    using readLine_loop_len_irrelevant by (auto simp: grow_unbounded LF_def CR_def)
next
  case (Cons c cs)
  then show ?case
    by (auto simp: grow_unbounded)
qed

lemma returned_readLine:
  "returned (readLine r) = forget_len (readLine_loop (avail r) (lineLen r) [] (inp r))"
  by (auto simp: returned_def forget_len_def readLine_def split: sum.splits)

lemma c_str_head: "c_str b = [] \<or> hd (c_str b) = hd b"
  by (cases b) (simp_all add: c_str_def)

text \<open>
  C9. Whatever the stream delivers, a line that \<^verbatim>\<open>readLine\<close> returns does not begin
  with \<open>|\<close> or \<open>+\<close>, neither as the buffer nor as the C string the callers scan. And
  when the bytes to come start with a raw line that begins with \<open>|\<close> or \<open>+\<close>, the call
  returns what it would return without that line: it drops the line and goes on reading
  in the same call (for as long as the buffer can grow).
\<close>

theorem readLine_never_returns_chatter:
  "(readLine r = Inr (n, r1) \<longrightarrow> 0 \<le> n \<longrightarrow>
      (line r1 = [] \<or> (hd (line r1) \<noteq> CHR ''|'' \<and> hd (line r1) \<noteq> CHR ''+'')) \<and>
      (c_str (line r1) = [] \<or>
         (hd (c_str (line r1)) \<noteq> CHR ''|'' \<and> hd (c_str (line r1)) \<noteq> CHR ''+'')))
   \<and> ((c = CHR ''|'' \<or> c = CHR ''+'') \<longrightarrow> LF \<notin> set l \<longrightarrow> avail r = \<infinity> \<longrightarrow>
        returned (readLine (r\<lparr>inp := c # l @ LF # rest\<rparr>)) = returned (readLine (r\<lparr>inp := rest\<rparr>)))"
proof (intro conjI impI)
  assume rl: "readLine r = Inr (n, r1)" and n0: "0 \<le> n"
  from rl obtain b len rest' where
    lp: "readLine_loop (avail r) (lineLen r) [] (inp r) = Inr (n, b, len, rest')"
    and b: "line r1 = b"
    by (auto simp: readLine_def split: sum.splits)
  from readLine_loop_never_chatter [OF lp n0] b
  show 1: "line r1 = [] \<or> (hd (line r1) \<noteq> CHR ''|'' \<and> hd (line r1) \<noteq> CHR ''+'')"
    by simp
  from 1 c_str_head [of "line r1"]
  show "c_str (line r1) = [] \<or>
          (hd (c_str (line r1)) \<noteq> CHR ''|'' \<and> hd (c_str (line r1)) \<noteq> CHR ''+'')"
    by (cases "line r1") (auto simp: c_str_def)
next
  assume c: "c = CHR ''|'' \<or> c = CHR ''+''" and l: "LF \<notin> set l" and av: "avail r = \<infinity>"
  let ?len = "if lineLen r \<le> 1 then lineLen r + 32 else lineLen r"
  from c have first: "readLine_loop \<infinity> (lineLen r) [] (c # l @ LF # rest) =
      readLine_loop \<infinity> ?len [c] (l @ LF # rest)"
    by (auto simp: grow_unbounded LF_def CR_def)
  from c l have "forget_len (readLine_loop \<infinity> ?len [c] (l @ LF # rest)) =
      forget_len (readLine_loop \<infinity> (lineLen r) [] rest)"
    by (intro readLine_loop_discards) simp_all
  with first av
  show "returned (readLine (r\<lparr>inp := c # l @ LF # rest\<rparr>)) = returned (readLine (r\<lparr>inp := rest\<rparr>))"
    by (simp add: returned_readLine)
qed

theorem readLine_never_returns_chatter_witness:
  "readLine (Nav2Remote_init (''|a'' @ [LF] @ ''ok'' @ [LF]) \<infinity> \<infinity>) =
     Inr (2, (Nav2Remote_init [] \<infinity> \<infinity>)\<lparr>line := ''ok'', lineLen := 32\<rparr>)
   \<and> hd ''ok'' \<noteq> CHR ''|'' \<and> hd ''ok'' \<noteq> CHR ''+''
   \<and> hd (c_str ''ok'') \<noteq> CHR ''|'' \<and> hd (c_str ''ok'') \<noteq> CHR ''+''
   \<and> LF \<notin> set ''a'' \<and> avail (Nav2Remote_init [] \<infinity> \<infinity>) = \<infinity>
   \<and> returned (readLine ((Nav2Remote_init [] \<infinity> \<infinity>)\<lparr>inp := CHR ''|'' # ''a'' @ LF # ''ok'' @ [LF]\<rparr>)) =
       returned (readLine ((Nav2Remote_init [] \<infinity> \<infinity>)\<lparr>inp := ''ok'' @ [LF]\<rparr>))"
proof -
  let ?fresh = "Nav2Remote_init [] \<infinity> \<infinity>"
  let ?before = "?fresh\<lparr>inp := CHR ''|'' # ''a'' @ LF # ''ok'' @ [LF]\<rparr>"
  let ?after = "?fresh\<lparr>line := ''ok'', lineLen := 32\<rparr>"
  have same: "Nav2Remote_init (''|a'' @ [LF] @ ''ok'' @ [LF]) \<infinity> \<infinity> = ?before"
    by (simp add: Nav2Remote_init_def)
  have run: "readLine ?before = Inr (2, ?after)"
    by (simp add: readLine_def Nav2Remote_init_def grow_def LF_def CR_def)
  have side: "LF \<notin> set ''a''" "avail ?before = \<infinity>" "avail ?fresh = \<infinity>"
    by (simp_all add: LF_def Nav2Remote_init_def)
  from readLine_never_returns_chatter [of ?before 2 ?after "CHR ''|''" "''a''" "''ok'' @ [LF]"] run side
  show ?thesis
    unfolding same by (simp add: c_str_def NUL_def)
qed

section \<open>The wire text of a relative velocity\<close>

lemma round_half_even_of_int: "round_half_even (of_int k) = k"
  by (simp add: round_half_even_def)

lemma fmt_lf_examples:
  "fmt_lf (3 / 2) = ''1.500000''"
  "fmt_lf 0 = ''0.000000''"
  "fmt_lf (- 30) = ''-30.000000''"
proof -
  have a: "round_half_even (\<bar>3 / 2\<bar> * 10 ^ 6) = 1500000"
    using round_half_even_of_int [of 1500000] by simp
  have b: "round_half_even (\<bar>0\<bar> * 10 ^ 6) = 0"
    using round_half_even_of_int [of 0] by simp
  have c: "round_half_even (\<bar>- 30\<bar> * 10 ^ 6) = 30000000"
    using round_half_even_of_int [of 30000000] by simp
  show "fmt_lf (3 / 2) = ''1.500000''"
    unfolding fmt_lf_def a by (simp add: decimal.simps digit_char_def)
  show "fmt_lf 0 = ''0.000000''"
    unfolding fmt_lf_def b by (simp add: decimal.simps digit_char_def)
  show "fmt_lf (- 30) = ''-30.000000''"
    unfolding fmt_lf_def c by (simp add: decimal.simps digit_char_def)
qed

lemma fd_write_unbounded:
  "room r = \<infinity> \<Longrightarrow> fd_write r msg = (length msg, r\<lparr>trace := trace r @ [Write msg]\<rparr>)"
  by (simp add: fd_write_def accepted_def)

lemma send_msg_unbounded:
  "room r = \<infinity> \<Longrightarrow> length msg < 128 \<Longrightarrow>
     send_msg r msg = Inr (0, r\<lparr>trace := trace r @ [Write msg]\<rparr>)"
  by (simp add: send_msg_def fd_write_unbounded)

text \<open>
  C6, as stated: \<^verbatim>\<open>setRelativeVelocity(1.5, 0.0, t)\<close> with \<open>t\<close> equal to -30 degrees in
  radians writes exactly \<^verbatim>\<open>v 1.5 0.0 -30\<close> and the line terminator. On a fresh connection
  that accepts every byte the call writes \<^verbatim>\<open>v 1.500000 0.000000 -30.000000\<close> and the
  line terminator, which is another text: \<^verbatim>\<open>%lf\<close> prints six digits after the point.
\<close>

theorem setRelativeVelocity_wire_counterexample:
  "setRelativeVelocity (Nav2Remote_init [] \<infinity> \<infinity>) 1.5 0.0 (- 30 * (pi / 180)) =
     Inr (0, (Nav2Remote_init [] \<infinity> \<infinity>)
               \<lparr>trace := [Write (''v 1.500000 0.000000 -30.000000'' @ [LF])]\<rparr>)
   \<and> ''v 1.500000 0.000000 -30.000000'' @ [LF] \<noteq> ''v 1.5 0.0 -30'' @ [LF]"
proof -
  have "room (Nav2Remote_init [] \<infinity> \<infinity>) = \<infinity>" "trace (Nav2Remote_init [] \<infinity> \<infinity>) = []"
    by (simp_all add: Nav2Remote_init_def)
  then show ?thesis
    by (simp add: setRelativeVelocity_def fmt_lf_examples send_msg_unbounded)
qed

text \<open>
  C6, amended. On a connection that accepts every byte,
  \<^verbatim>\<open>setRelativeVelocity(1.5, 0.0, t)\<close> with \<open>t\<close> equal to -30 degrees in radians returns 0
  and writes, in one \<^verbatim>\<open>write\<close>, exactly \<^verbatim>\<open>v 1.500000 0.000000 -30.000000\<close> and the line
  terminator. In general the text is \<^verbatim>\<open>v\<close>, then \<open>vx\<close> and \<open>vy\<close> as they are given, then
  the turn rate multiplied by \<open>180 / pi\<close>, each in the six-digit fixed notation
  (whenever that text fits the 128 bytes of the message buffer).
\<close>

theorem setRelativeVelocity_wire:
  assumes "room r = \<infinity>"
  shows "setRelativeVelocity r 1.5 0.0 (- 30 * (pi / 180)) =
           Inr (0, r\<lparr>trace := trace r @ [Write (''v 1.500000 0.000000 -30.000000'' @ [LF])]\<rparr>)
         \<and> (length (''v '' @ fmt_lf vx @ '' '' @ fmt_lf vy @ '' '' @
                     fmt_lf (turnRate * (180 / pi)) @ [LF]) < 128 \<longrightarrow>
             setRelativeVelocity r vx vy turnRate =
               Inr (0, r\<lparr>trace := trace r @
                     [Write (''v '' @ fmt_lf vx @ '' '' @ fmt_lf vy @ '' '' @
                             fmt_lf (turnRate * (180 / pi)) @ [LF])]\<rparr>))"
proof (intro conjI impI)
  show "setRelativeVelocity r 1.5 0.0 (- 30 * (pi / 180)) =
          Inr (0, r\<lparr>trace := trace r @ [Write (''v 1.500000 0.000000 -30.000000'' @ [LF])]\<rparr>)"
    using assms by (simp add: setRelativeVelocity_def fmt_lf_examples send_msg_unbounded)
next
  assume "length (''v '' @ fmt_lf vx @ '' '' @ fmt_lf vy @ '' '' @
                  fmt_lf (turnRate * (180 / pi)) @ [LF]) < 128"
  with assms show "setRelativeVelocity r vx vy turnRate =
      Inr (0, r\<lparr>trace := trace r @
            [Write (''v '' @ fmt_lf vx @ '' '' @ fmt_lf vy @ '' '' @
                    fmt_lf (turnRate * (180 / pi)) @ [LF])]\<rparr>)"
    unfolding setRelativeVelocity_def by (rule send_msg_unbounded)
qed

theorem setRelativeVelocity_wire_witness:
  "room (Nav2Remote_init [] \<infinity> \<infinity>) = \<infinity>
   \<and> setRelativeVelocity (Nav2Remote_init [] \<infinity> \<infinity>) 1.5 0.0 (- 30 * (pi / 180)) =
       Inr (0, (Nav2Remote_init [] \<infinity> \<infinity>)
                 \<lparr>trace := [Write (''v 1.500000 0.000000 -30.000000'' @ [LF])]\<rparr>)
   \<and> length (''v '' @ fmt_lf 0 @ '' '' @ fmt_lf 0 @ '' '' @ fmt_lf (0 * (180 / pi)) @ [LF]) < 128
   \<and> setRelativeVelocity (Nav2Remote_init [] \<infinity> \<infinity>) 0 0 0 =
       Inr (0, (Nav2Remote_init [] \<infinity> \<infinity>)
                 \<lparr>trace := [Write (''v 0.000000 0.000000 0.000000'' @ [LF])]\<rparr>)"
proof -
  have rm: "room (Nav2Remote_init [] \<infinity> \<infinity>) = \<infinity>"
    and tr: "trace (Nav2Remote_init [] \<infinity> \<infinity>) = []"
    by (simp_all add: Nav2Remote_init_def)
  have fits: "length (''v '' @ fmt_lf 0 @ '' '' @ fmt_lf 0 @ '' '' @ fmt_lf (0 * (180 / pi)) @ [LF]) < 128"
    by (simp add: fmt_lf_examples)
  from setRelativeVelocity_wire [OF rm, of 0 0 0] fits rm tr
  show ?thesis
    by (simp add: fmt_lf_examples)
qed

section \<open>I/O failures are return values\<close>
















section \<open>Scanning a response line\<close>

lemma isdigit_simps:
  "\<not> isdigit (CHR ''.'')" "\<not> isdigit (CHR '' '')" "\<not> isdigit (CHR ''-'')" "\<not> isdigit (CHR ''+'')"
  by (simp_all add: isdigit_def)

lemma isdigit_not_other:
  assumes "isdigit c"
  shows "\<not> isspace c" "c \<noteq> CHR ''-''" "c \<noteq> CHR ''+''" "c \<noteq> CHR ''.''" "c \<noteq> LF" "c \<noteq> CR"
    "c \<noteq> NUL" "c \<noteq> CHR ''|''" "c \<noteq> CHR ''e''" "c \<noteq> CHR ''E''"
  using assms by (auto simp: isdigit_def isspace_def LF_def CR_def NUL_def)

lemma digits_run:
  assumes "list_all isdigit ds" and "nxt = [] \<or> \<not> isdigit (hd nxt)"
  shows "takeWhile isdigit (ds @ nxt) = ds" and "dropWhile isdigit (ds @ nxt) = nxt"
proof -
  have all: "\<forall>c \<in> set ds. isdigit c"
    using assms(1) by (simp add: list_all_iff)
  have tw: "takeWhile isdigit nxt = []" and dw: "dropWhile isdigit nxt = nxt"
    using assms(2) by (cases nxt; simp)+
  show "takeWhile isdigit (ds @ nxt) = ds"
    using all tw by (simp add: takeWhile_append2)
  show "dropWhile isdigit (ds @ nxt) = nxt"
    using all dw by (simp add: dropWhile_append2)
qed

lemma spaces_run:
  assumes "list_all isspace ws" and "s \<noteq> []" and "\<not> isspace (hd s)"
  shows "dropWhile isspace (ws @ s) = s"
proof -
  have "\<forall>c \<in> set ws. isspace c"
    using assms(1) by (simp add: list_all_iff)
  moreover have "dropWhile isspace s = s"
    using assms(2,3) by (cases s) simp_all
  ultimately show ?thesis
    by (simp add: dropWhile_append2)
qed

lemma scan_sign_numeral:
  assumes "int_digits t \<noteq> []" "list_all isdigit (int_digits t)"
  shows "scan_sign (numeral_string t @ nxt) =
     (negative t, int_digits t @ (if frac_digits t = [] then [] else CHR ''.'' # frac_digits t) @ nxt)"
proof (cases "negative t")
  case True
  then show ?thesis by (simp add: scan_sign_def numeral_string_def)
next
  case False
  from assms obtain d ds where ds: "int_digits t = d # ds" and d: "isdigit d"
    by (cases "int_digits t") auto
  with False isdigit_not_other [OF d] show ?thesis
    by (simp add: scan_sign_def numeral_string_def)
qed

lemma numeral_string_head:
  assumes "wf_numeral t"
  shows "numeral_string t @ nxt \<noteq> []" "\<not> isspace (hd (numeral_string t @ nxt))"
    "hd (numeral_string t @ nxt) \<noteq> CHR ''|''" "hd (numeral_string t @ nxt) \<noteq> CHR ''+''"
proof -
  from assms obtain d ds where ds: "int_digits t = d # ds" and d: "isdigit d"
    by (cases "int_digits t") (auto simp: wf_numeral_def)
  show "numeral_string t @ nxt \<noteq> []"
    using ds by (simp add: numeral_string_def)
  show "\<not> isspace (hd (numeral_string t @ nxt))"
    "hd (numeral_string t @ nxt) \<noteq> CHR ''|''" "hd (numeral_string t @ nxt) \<noteq> CHR ''+''"
    using ds isdigit_not_other [OF d] by (simp_all add: numeral_string_def isspace_def)
qed

lemma scan_exp_none: "nxt = [] \<or> hd nxt = CHR '' '' \<Longrightarrow> scan_exp m nxt = (m, nxt)"
  by (cases nxt) (auto simp: scan_exp_def)

lemma scan_frac_numeral:
  assumes "list_all isdigit fs" and "nxt = [] \<or> hd nxt = CHR '' ''"
  shows "scan_frac ((if fs = [] then [] else CHR ''.'' # fs) @ nxt) = (fs, nxt)"
proof (cases "fs = []")
  case True
  with assms(2) show ?thesis by (cases nxt) (auto simp: scan_frac_def)
next
  case False
  have "nxt = [] \<or> \<not> isdigit (hd nxt)"
    using assms(2) isdigit_simps by auto
  with False digits_run [OF assms(1) this] show ?thesis
    by (simp add: scan_frac_def)
qed

lemma scan_lf_numeral:
  assumes wf: "wf_numeral t" and ws: "list_all isspace ws" and nxt: "nxt = [] \<or> hd nxt = CHR '' ''"
  shows "scan_lf (ws @ numeral_string t @ nxt) = Some (numeral_value t, nxt)"
proof -
  define frac where "frac = (if frac_digits t = [] then [] else CHR ''.'' # frac_digits t)"
  from wf have id: "int_digits t \<noteq> []" "list_all isdigit (int_digits t)"
    and fd: "list_all isdigit (frac_digits t)"
    by (simp_all add: wf_numeral_def)
  have nxt': "nxt = [] \<or> \<not> isdigit (hd nxt)"
    using nxt isdigit_simps by auto
  have s0: "dropWhile isspace (ws @ numeral_string t @ nxt) = numeral_string t @ nxt"
    using spaces_run [OF ws numeral_string_head(1,2) [OF wf]] .
  have s1: "scan_sign (numeral_string t @ nxt) = (negative t, int_digits t @ frac @ nxt)"
    using scan_sign_numeral [OF id] by (simp add: frac_def)
  have nd: "frac @ nxt = [] \<or> \<not> isdigit (hd (frac @ nxt))"
    using nxt' isdigit_simps by (auto simp: frac_def)
  have s2: "takeWhile isdigit (int_digits t @ frac @ nxt) = int_digits t"
    "dropWhile isdigit (int_digits t @ frac @ nxt) = frac @ nxt"
    using digits_run [OF id(2) nd] by simp_all
  have s3: "scan_frac (frac @ nxt) = (frac_digits t, nxt)"
    unfolding frac_def by (rule scan_frac_numeral [OF fd nxt])
  show ?thesis
    unfolding scan_lf_def s0 s1 using id(1)
    by (simp add: s2 s3 scan_exp_none [OF nxt] numeral_value_def)
qed

lemma scan_d_depth:
  assumes wf: "wf_depth t" and ws: "list_all isspace ws" and nxt: "nxt = [] \<or> hd nxt = CHR '' ''"
  shows "scan_d (ws @ numeral_string t @ nxt) = Some (depth_value t, nxt)"
proof -
  from wf have wn: "wf_numeral t" and fr: "frac_digits t = []"
    by (simp_all add: wf_depth_def)
  from wn have id: "int_digits t \<noteq> []" "list_all isdigit (int_digits t)"
    by (simp_all add: wf_numeral_def)
  have nxt': "nxt = [] \<or> \<not> isdigit (hd nxt)"
    using nxt isdigit_simps by auto
  have s0: "dropWhile isspace (ws @ numeral_string t @ nxt) = numeral_string t @ nxt"
    using spaces_run [OF ws numeral_string_head(1,2) [OF wn]] .
  have s1: "scan_sign (numeral_string t @ nxt) = (negative t, int_digits t @ nxt)"
    using scan_sign_numeral [OF id, of nxt] fr by simp
  show ?thesis
    unfolding scan_d_def s0 s1 using id(1) digits_run [OF id(2) nxt']
    by (simp add: depth_value_def Let_def)
qed

lemma sscanf_response:
  assumes "wf_response p"
  shows "sscanf_lf3_d (response_line p) =
     Inr (Some (numeral_value (rx p)), Some (numeral_value (ry p)),
          Some (numeral_value (rtheta_deg p)), Some (depth_value (rdepth p)))"
proof -
  from assms have x: "wf_numeral (rx p)" and y: "wf_numeral (ry p)"
    and th: "wf_numeral (rtheta_deg p)" and q: "wf_depth (rdepth p)"
    by (simp_all add: wf_response_def)
  let ?t3 = "numeral_string (rdepth p)"
  let ?t2 = "numeral_string (rtheta_deg p) @ '' '' @ ?t3"
  let ?t1 = "numeral_string (ry p) @ '' '' @ ?t2"
  have a: "scan_lf (response_line p) = Some (numeral_value (rx p), '' '' @ ?t1)"
    using scan_lf_numeral [OF x, of "[]" "'' '' @ ?t1"] by (simp add: response_line_def)
  have b: "scan_lf ('' '' @ ?t1) = Some (numeral_value (ry p), '' '' @ ?t2)"
    using scan_lf_numeral [OF y, of "'' ''" "'' '' @ ?t2"] by (simp add: isspace_def)
  have c: "scan_lf ('' '' @ ?t2) = Some (numeral_value (rtheta_deg p), '' '' @ ?t3)"
    using scan_lf_numeral [OF th, of "'' ''" "'' '' @ ?t3"] by (simp add: isspace_def)
  have d: "scan_d ('' '' @ ?t3) = Some (depth_value (rdepth p), [])"
    using scan_d_depth [OF q, of "'' ''" "[]"] by (simp add: isspace_def)
  from q have range: "- (2 ^ 31) \<le> depth_value (rdepth p)" "depth_value (rdepth p) < 2 ^ 31"
    by (simp_all add: wf_depth_def)
  show ?thesis
    unfolding sscanf_lf3_d_def a using range by (simp add: b c d del: append.simps)
qed


lemma readLine_loop_line:
  assumes "LF \<notin> set l" and "CR \<notin> set l"
    and "buf @ l = [] \<or> (hd (buf @ l) \<noteq> CHR ''|'' \<and> hd (buf @ l) \<noteq> CHR ''+'')"
  shows "forget_len (readLine_loop \<infinity> len buf (l @ LF # rest)) =
         Inr (int (length (buf @ l)), buf @ l, rest)"
  using assms
proof (induction l arbitrary: len buf)
  case Nil
  then show ?case
    by (auto simp: grow_unbounded forget_len_def LF_def CR_def)
next
  case (Cons c cs)
  from Cons.prems have "forget_len (readLine_loop \<infinity> len' (buf @ [c]) (cs @ LF # rest)) =
      Inr (int (length ((buf @ [c]) @ cs)), (buf @ [c]) @ cs, rest)" for len'
    by (intro Cons.IH) simp_all
  moreover from Cons.prems have "c \<noteq> LF" "c \<noteq> CR"
    by auto
  ultimately show ?case
    by (simp add: grow_unbounded)
qed

lemma control_chars:
  "\<not> isdigit LF" "\<not> isdigit CR" "\<not> isdigit NUL"
  "LF \<noteq> CHR ''-''" "CR \<noteq> CHR ''-''" "NUL \<noteq> CHR ''-''"
  "LF \<noteq> CHR ''.''" "CR \<noteq> CHR ''.''" "NUL \<noteq> CHR ''.''"
  "LF \<noteq> CHR '' ''" "CR \<noteq> CHR '' ''" "NUL \<noteq> CHR '' ''"
  by (simp_all add: isdigit_def LF_def CR_def NUL_def)

lemma numeral_string_chars:
  assumes "wf_numeral t" and "\<not> isdigit c" and "c \<noteq> CHR ''-''" and "c \<noteq> CHR ''.''"
  shows "c \<notin> set (numeral_string t)"
proof -
  have "\<forall>d \<in> set (int_digits t) \<union> set (frac_digits t). isdigit d"
    using assms(1) by (auto simp: wf_numeral_def list_all_iff)
  with assms(2-) show ?thesis
    by (auto simp: numeral_string_def)
qed

lemma response_line_chars:
  assumes "wf_response p" and "\<not> isdigit c" and "c \<noteq> CHR ''-''" and "c \<noteq> CHR ''.''"
    and "c \<noteq> CHR '' ''"
  shows "c \<notin> set (response_line p)"
proof -
  from assms(1) have x: "wf_numeral (rx p)" and y: "wf_numeral (ry p)"
    and th: "wf_numeral (rtheta_deg p)" and q: "wf_numeral (rdepth p)"
    by (simp_all add: wf_response_def wf_depth_def)
  show ?thesis
    using numeral_string_chars [OF x assms(2-4)] numeral_string_chars [OF y assms(2-4)]
      numeral_string_chars [OF th assms(2-4)] numeral_string_chars [OF q assms(2-4)] assms(5)
    by (simp add: response_line_def)
qed

lemma response_line_clean:
  assumes "wf_response p"
  shows "LF \<notin> set (response_line p)" "CR \<notin> set (response_line p)"
    "NUL \<notin> set (response_line p)"
    "response_line p \<noteq> []"
    "hd (response_line p) \<noteq> CHR ''|''" "hd (response_line p) \<noteq> CHR ''+''"
proof -
  from assms have x: "wf_numeral (rx p)"
    by (simp add: wf_response_def)
  show "LF \<notin> set (response_line p)" "CR \<notin> set (response_line p)"
    "NUL \<notin> set (response_line p)"
    by (rule response_line_chars [OF assms]; rule control_chars)+
  show "response_line p \<noteq> []"
    "hd (response_line p) \<noteq> CHR ''|''" "hd (response_line p) \<noteq> CHR ''+''"
    using numeral_string_head [OF x] by (simp_all add: response_line_def)
qed

lemma c_str_clean: "NUL \<notin> set l \<Longrightarrow> c_str l = l"
  by (auto simp: c_str_def takeWhile_eq_all_conv)

lemma readLine_response:
  assumes wf: "wf_response p" and i: "inp r = response_line p @ LF # rest" and av: "avail r = \<infinity>"
  shows "\<exists>len. readLine r = Inr (int (length (response_line p)),
                   r\<lparr>line := response_line p, lineLen := len, inp := rest\<rparr>)"
proof -
  have "forget_len (readLine_loop \<infinity> (lineLen r) [] (response_line p @ LF # rest)) =
      Inr (int (length (response_line p)), response_line p, rest)"
    using readLine_loop_line [of "response_line p" "[]" "lineLen r" rest] response_line_clean [OF wf]
    by simp
  then obtain len where "readLine_loop \<infinity> (lineLen r) [] (response_line p @ LF # rest) =
      Inr (int (length (response_line p)), response_line p, len, rest)"
    by (cases "readLine_loop \<infinity> (lineLen r) [] (response_line p @ LF # rest)")
      (auto simp: forget_len_def)
  with i av show ?thesis
    by (auto simp: readLine_def)
qed

lemma q_response:
  assumes wf: "wf_response p" and i: "inp r = response_line p @ LF # rest"
    and rm: "2 \<le> room r" and av: "avail r = \<infinity>"
  shows "\<exists>r1. estimatePosition r (x0, y0, o0) =
              Inr (0, (numeral_value (rx p), numeral_value (ry p),
                       numeral_value (rtheta_deg p) * (pi / 180)), r1)
            \<and> getQueueSize r = Inr (depth_value (rdepth p), r1)
            \<and> trace r1 = trace r @ [Write (''q'' @ [LF])]
            \<and> line r1 = response_line p \<and> inp r1 = rest
            \<and> room r1 = room r - 2 \<and> avail r1 = avail r"
proof -
  obtain r0 where w: "fd_write r (''q'' @ [LF]) = (2, r0)"
    and r0: "inp r0 = inp r" "avail r0 = avail r" "trace r0 = trace r @ [Write (''q'' @ [LF])]"
      "room r0 = room r - 2"
    using rm by (cases "room r") (auto simp: fd_write_def accepted_def numeral_eq_enat)
  from readLine_response [OF wf, of r0 rest] r0 i av
  obtain len where rl: "readLine r0 =
      Inr (int (length (response_line p)), r0\<lparr>line := response_line p, lineLen := len, inp := rest\<rparr>)"
    by auto
  let ?r1 = "r0\<lparr>line := response_line p, lineLen := len, inp := rest\<rparr>"
  have cs: "c_str (line ?r1) = response_line p"
    using response_line_clean(3) [OF wf] by (simp add: c_str_clean)
  have "estimatePosition r (x0, y0, o0) =
      Inr (0, (numeral_value (rx p), numeral_value (ry p),
               numeral_value (rtheta_deg p) * (pi / 180)), ?r1)"
    unfolding estimatePosition_def using w rl cs sscanf_response [OF wf]
    by (simp del: append.simps)
  moreover have "getQueueSize r = Inr (depth_value (rdepth p), ?r1)"
    unfolding getQueueSize_def using w rl cs sscanf_response [OF wf]
    by (simp del: append.simps)
  ultimately show ?thesis
    using r0 by (intro exI [of _ ?r1]) simp
qed

text \<open>
  C7. Let the bytes to come start with a response line \<^verbatim>\<open><x> <y> <theta_deg> <queueDepth>\<close>
  and its newline, on a connection that accepts the request and whose buffer can grow.
  Then \<^verbatim>\<open>estimatePosition\<close> and \<^verbatim>\<open>getQueueSize\<close> both write the one line \<^verbatim>\<open>q\<close>, both
  consume that response line and leave the connection in the same state;
  \<^verbatim>\<open>estimatePosition\<close> returns 0 with \<open>x\<close>, \<open>y\<close> and the third field multiplied by
  \<open>pi / 180\<close>, whatever its arguments held before, and \<^verbatim>\<open>getQueueSize\<close> returns the
  fourth field as an integer.
\<close>

theorem position_and_queue_share_query:
  assumes "wf_response p" and "inp r = response_line p @ LF # rest"
    and "2 \<le> room r" and "avail r = \<infinity>"
  shows "\<exists>r1. estimatePosition r (x0, y0, o0) =
              Inr (0, (numeral_value (rx p), numeral_value (ry p),
                       numeral_value (rtheta_deg p) * (pi / 180)), r1)
            \<and> getQueueSize r = Inr (depth_value (rdepth p), r1)
            \<and> trace r1 = trace r @ [Write (''q'' @ [LF])]
            \<and> line r1 = response_line p \<and> inp r1 = rest"
  using q_response [OF assms, of x0 y0 o0] by blast

theorem position_and_queue_share_query_witness:
  "wf_response \<lparr>rx = Numeral_text False ''1'' ''5'', ry = Numeral_text True ''2'' ''25'',
                 rtheta_deg = Numeral_text False ''90'' [], rdepth = Numeral_text False ''3'' []\<rparr>
   \<and> inp (Nav2Remote_init (''1.5 -2.25 90 3'' @ [LF]) \<infinity> \<infinity>) =
       response_line \<lparr>rx = Numeral_text False ''1'' ''5'', ry = Numeral_text True ''2'' ''25'',
                 rtheta_deg = Numeral_text False ''90'' [], rdepth = Numeral_text False ''3'' []\<rparr>
       @ LF # []
   \<and> 2 \<le> room (Nav2Remote_init (''1.5 -2.25 90 3'' @ [LF]) \<infinity> \<infinity>)
   \<and> avail (Nav2Remote_init (''1.5 -2.25 90 3'' @ [LF]) \<infinity> \<infinity>) = \<infinity>
   \<and> (\<exists>r1. estimatePosition (Nav2Remote_init (''1.5 -2.25 90 3'' @ [LF]) \<infinity> \<infinity>) (0, 0, 0) =
              Inr (0, (3 / 2, - (9 / 4), 90 * (pi / 180)), r1)
            \<and> getQueueSize (Nav2Remote_init (''1.5 -2.25 90 3'' @ [LF]) \<infinity> \<infinity>) = Inr (3, r1)
            \<and> trace r1 = [Write (''q'' @ [LF])]
            \<and> line r1 = ''1.5 -2.25 90 3'' \<and> inp r1 = [])"
proof -
  let ?p = "\<lparr>rx = Numeral_text False ''1'' ''5'', ry = Numeral_text True ''2'' ''25'',
             rtheta_deg = Numeral_text False ''90'' [], rdepth = Numeral_text False ''3'' []\<rparr>"
  let ?c = "Nav2Remote_init (''1.5 -2.25 90 3'' @ [LF]) \<infinity> \<infinity>"
  have dv: "digits_val ''1'' = 1" "digits_val ''5'' = 5" "digits_val ''2'' = 2"
    "digits_val ''25'' = 25" "digits_val ''90'' = 90" "digits_val ''3'' = 3" "digits_val [] = 0"
    by (simp_all add: digits_val_def digit_val_def)
  have wf: "wf_response ?p"
    by (simp add: wf_response_def wf_depth_def wf_numeral_def depth_value_def isdigit_def dv)
  have ln: "response_line ?p = ''1.5 -2.25 90 3''"
    by (simp add: response_line_def numeral_string_def)
  have i: "inp ?c = response_line ?p @ LF # []"
    by (simp add: ln Nav2Remote_init_def)
  have rm: "2 \<le> room ?c" and av: "avail ?c = \<infinity>" and tr: "trace ?c = []"
    by (simp_all add: Nav2Remote_init_def)
  have vals: "numeral_value (rx ?p) = 3 / 2" "numeral_value (ry ?p) = - (9 / 4)"
    "numeral_value (rtheta_deg ?p) = 90" "depth_value (rdepth ?p) = 3"
    by (simp_all add: numeral_value_def depth_value_def dv)
  from position_and_queue_share_query [OF wf i rm av, of 0 0 0]
  show ?thesis
    unfolding vals ln tr using wf i rm av by (simp add: ln)
qed

section \<open>Waiting for the queue to drain\<close>

lemma readLine_loop_eof:
  "LF \<notin> set i \<Longrightarrow> \<exists>b l. readLine_loop \<infinity> len buf i = Inr (- 1, b, l, [])"
proof (induction i arbitrary: len buf)
  case Nil
  show ?case by (simp add: grow_unbounded)
next
  case (Cons c cs)
  then have "c \<noteq> LF" "LF \<notin> set cs" by auto
  with Cons.IH show ?case
    by (simp add: grow_unbounded)
qed

lemma getQueueSize_eof:
  assumes "LF \<notin> set (inp r)" and "2 \<le> room r" and "avail r = \<infinity>"
  shows "\<exists>r1. getQueueSize r = Inr (- 1, r1) \<and> trace r1 = trace r @ [Write (''q'' @ [LF])]"
proof -
  obtain r0 where w: "fd_write r (''q'' @ [LF]) = (2, r0)"
    and r0: "inp r0 = inp r" "avail r0 = avail r" "trace r0 = trace r @ [Write (''q'' @ [LF])]"
    using assms(2) by (cases "room r") (auto simp: fd_write_def accepted_def numeral_eq_enat)
  from readLine_loop_eof [OF assms(1), of "lineLen r0" "[]"] r0 assms(3)
  obtain r1 where "readLine r0 = Inr (- 1, r1)" and "trace r1 = trace r0"
    by (auto simp: readLine_def)
  with w r0 show ?thesis
    by (auto simp: getQueueSize_def)
qed

lemma wait_rounds:
  assumes "\<forall>p \<in> set ps. wf_response p \<and> 1 \<le> depth_value (rdepth p)"
    and "room r = \<infinity>" and "avail r = \<infinity>"
    and "inp r = concat (map (\<lambda>p. response_line p @ [LF]) ps) @ rest"
  shows "\<exists>r1. wait r = wait r1 \<and>
           trace r1 = trace r @ concat (replicate (length ps) [Write (''q'' @ [LF]), Usleep 100000]) \<and>
           inp r1 = rest \<and> room r1 = \<infinity> \<and> avail r1 = \<infinity>"
  using assms
proof (induction ps arbitrary: r)
  case Nil
  then show ?case by auto
next
  case (Cons p ps)
  let ?rest = "concat (map (\<lambda>p. response_line p @ [LF]) ps) @ rest"
  from Cons.prems have wf: "wf_response p" and d: "1 \<le> depth_value (rdepth p)"
    and i: "inp r = response_line p @ LF # ?rest"
    by simp_all
  from Cons.prems have rm: "2 \<le> room r" by simp
  from q_response [OF wf i rm Cons.prems(3), of 0 0 0] Cons.prems(2,3)
  obtain r0 where g: "getQueueSize r = Inr (depth_value (rdepth p), r0)"
    and r0: "trace r0 = trace r @ [Write (''q'' @ [LF])]" "inp r0 = ?rest"
      "room r0 = \<infinity>" "avail r0 = \<infinity>"
    by auto
  have step: "wait r = wait (usleep 100000 r0)"
    using g d by (subst wait.simps) simp
  have "\<exists>r1. wait (usleep 100000 r0) = wait r1 \<and>
      trace r1 = trace (usleep 100000 r0) @
        concat (replicate (length ps) [Write (''q'' @ [LF]), Usleep 100000]) \<and>
      inp r1 = rest \<and> room r1 = \<infinity> \<and> avail r1 = \<infinity>"
    using Cons.prems(1) r0 by (intro Cons.IH) (simp_all add: usleep_def)
  then show ?case
    using step r0 by (auto simp: usleep_def)
qed


lemma wait_ends:
  assumes "\<forall>p \<in> set ps. wf_response p \<and> 1 \<le> depth_value (rdepth p)"
    and "room r = \<infinity>" and "avail r = \<infinity>"
  shows "wf_response p0 \<longrightarrow> depth_value (rdepth p0) < 1 \<longrightarrow>
           inp r = concat (map (\<lambda>p. response_line p @ [LF]) (ps @ [p0])) @ rest \<longrightarrow>
           (\<exists>r1. wait r = Inr (depth_value (rdepth p0), r1) \<and>
                 trace r1 = trace r @
                   concat (replicate (length ps) [Write (''q'' @ [LF]), Usleep 100000]) @
                   [Write (''q'' @ [LF])] \<and>
                 inp r1 = rest)"
    and "inp r = concat (map (\<lambda>p. response_line p @ [LF]) ps) @ rest \<longrightarrow> LF \<notin> set rest \<longrightarrow>
           (\<exists>r1. wait r = Inr (- 1, r1) \<and>
                 trace r1 = trace r @
                   concat (replicate (length ps) [Write (''q'' @ [LF]), Usleep 100000]) @
                   [Write (''q'' @ [LF])])"
proof -
  show "wf_response p0 \<longrightarrow> depth_value (rdepth p0) < 1 \<longrightarrow>
           inp r = concat (map (\<lambda>p. response_line p @ [LF]) (ps @ [p0])) @ rest \<longrightarrow>
           (\<exists>r1. wait r = Inr (depth_value (rdepth p0), r1) \<and>
                 trace r1 = trace r @
                   concat (replicate (length ps) [Write (''q'' @ [LF]), Usleep 100000]) @
                   [Write (''q'' @ [LF])] \<and>
                 inp r1 = rest)"
  proof (intro impI)
    assume wf: "wf_response p0" and d: "depth_value (rdepth p0) < 1"
      and i: "inp r = concat (map (\<lambda>p. response_line p @ [LF]) (ps @ [p0])) @ rest"
    from i have "inp r = concat (map (\<lambda>p. response_line p @ [LF]) ps) @
        (response_line p0 @ LF # rest)"
      by simp
    from wait_rounds [OF assms this]
    obtain r1 where w: "wait r = wait r1"
      and r1: "trace r1 = trace r @
          concat (replicate (length ps) [Write (''q'' @ [LF]), Usleep 100000])"
        "inp r1 = response_line p0 @ LF # rest" "room r1 = \<infinity>" "avail r1 = \<infinity>"
      by blast
    from r1 have rm: "2 \<le> room r1" by simp
    from q_response [OF wf r1(2) rm r1(4), of 0 0 0]
    obtain r2 where g: "getQueueSize r1 = Inr (depth_value (rdepth p0), r2)"
      and r2: "trace r2 = trace r1 @ [Write (''q'' @ [LF])]" "inp r2 = rest"
      by auto
    have "wait r1 = Inr (depth_value (rdepth p0), r2)"
      using g d by (subst wait.simps) simp
    with w r1(1) r2 show "\<exists>r1. wait r = Inr (depth_value (rdepth p0), r1) \<and>
        trace r1 = trace r @
          concat (replicate (length ps) [Write (''q'' @ [LF]), Usleep 100000]) @
          [Write (''q'' @ [LF])] \<and>
        inp r1 = rest"
      by auto
  qed
  show "inp r = concat (map (\<lambda>p. response_line p @ [LF]) ps) @ rest \<longrightarrow> LF \<notin> set rest \<longrightarrow>
           (\<exists>r1. wait r = Inr (- 1, r1) \<and>
                 trace r1 = trace r @
                   concat (replicate (length ps) [Write (''q'' @ [LF]), Usleep 100000]) @
                   [Write (''q'' @ [LF])])"
  proof (intro impI)
    assume i: "inp r = concat (map (\<lambda>p. response_line p @ [LF]) ps) @ rest"
      and e: "LF \<notin> set rest"
    from wait_rounds [OF assms i]
    obtain r1 where w: "wait r = wait r1"
      and r1: "trace r1 = trace r @
          concat (replicate (length ps) [Write (''q'' @ [LF]), Usleep 100000])"
        "inp r1 = rest" "room r1 = \<infinity>" "avail r1 = \<infinity>"
      by blast
    from r1 have rm: "2 \<le> room r1" by simp
    from getQueueSize_eof [of r1] e r1 rm
    obtain r2 where g: "getQueueSize r1 = Inr (- 1, r2)"
      and r2: "trace r2 = trace r1 @ [Write (''q'' @ [LF])]"
      by auto
    have "wait r1 = Inr (- 1, r2)"
      using g by (subst wait.simps) simp
    with w r1(1) r2 show "\<exists>r1. wait r = Inr (- 1, r1) \<and>
        trace r1 = trace r @
          concat (replicate (length ps) [Write (''q'' @ [LF]), Usleep 100000]) @
          [Write (''q'' @ [LF])]"
      by auto
  qed
qed


lemma wait_example:
  "wait (Nav2Remote_init (''0 0 0 3'' @ [LF] @ ''0 0 0 2'' @ [LF] @ ''0 0 0 1'' @ [LF] @
                          ''0 0 0 0'' @ [LF]) \<infinity> \<infinity>) =
     Inr (0, (Nav2Remote_init [] \<infinity> \<infinity>)
               \<lparr>line := ''0 0 0 0'', lineLen := 32,
                trace := [Write (''q'' @ [LF]), Usleep 100000, Write (''q'' @ [LF]), Usleep 100000,
                          Write (''q'' @ [LF]), Usleep 100000, Write (''q'' @ [LF])]\<rparr>)"
  by (simp add: wait.simps getQueueSize_def fd_write_def accepted_def readLine_def grow_def
      usleep_def Nav2Remote_init_def c_str_def sscanf_lf3_d_def scan_lf_def scan_d_def
      scan_sign_def scan_frac_def scan_exp_def isspace_def isdigit_def digits_val_def
      digit_val_def LF_def CR_def NUL_def)

lemma idle_reply_examples:
  "wf_response (idle_reply ''3'')" "wf_response (idle_reply ''2'')"
  "wf_response (idle_reply ''1'')" "wf_response (idle_reply ''0'')"
  "depth_value (rdepth (idle_reply ''3'')) = 3" "depth_value (rdepth (idle_reply ''2'')) = 2"
  "depth_value (rdepth (idle_reply ''1'')) = 1" "depth_value (rdepth (idle_reply ''0'')) = 0"
  "response_line (idle_reply ds) = ''0 0 0 '' @ ds"
  by (simp_all add: idle_reply_def wf_response_def wf_depth_def wf_numeral_def depth_value_def
      isdigit_def digits_val_def digit_val_def response_line_def numeral_string_def)

text \<open>
  C10. On a connection that accepts every request and whose buffer can grow, let the
  device answer the polls with response lines whose depths are at least 1, one line per
  poll. If the next response line has a depth below 1, \<^verbatim>\<open>wait\<close> returns that depth (0,
  success, for the depth 0) at that poll; if instead the stream ends before another line
  is complete, \<^verbatim>\<open>wait\<close> returns -1 at that poll. In both cases the calls to the outside
  are one request \<^verbatim>\<open>q\<close> per poll and one \<^verbatim>\<open>usleep(100000)\<close> after each poll but the
  last. For the depths 3, 2, 1, 0 the result is 0 after four requests with three sleeps
  of 100000 microseconds between them.
\<close>

theorem wait_polls_until_empty:
  assumes "\<forall>p \<in> set ps. wf_response p \<and> 1 \<le> depth_value (rdepth p)"
    and "room r = \<infinity>" and "avail r = \<infinity>"
  shows "(wf_response p0 \<longrightarrow> depth_value (rdepth p0) < 1 \<longrightarrow>
           inp r = concat (map (\<lambda>p. response_line p @ [LF]) (ps @ [p0])) @ rest \<longrightarrow>
           (\<exists>r1. wait r = Inr (depth_value (rdepth p0), r1) \<and>
                 trace r1 = trace r @
                   concat (replicate (length ps) [Write (''q'' @ [LF]), Usleep 100000]) @
                   [Write (''q'' @ [LF])] \<and>
                 inp r1 = rest))
       \<and> (inp r = concat (map (\<lambda>p. response_line p @ [LF]) ps) @ rest \<longrightarrow> LF \<notin> set rest \<longrightarrow>
           (\<exists>r1. wait r = Inr (- 1, r1) \<and>
                 trace r1 = trace r @
                   concat (replicate (length ps) [Write (''q'' @ [LF]), Usleep 100000]) @
                   [Write (''q'' @ [LF])]))
       \<and> wait (Nav2Remote_init (''0 0 0 3'' @ [LF] @ ''0 0 0 2'' @ [LF] @ ''0 0 0 1'' @ [LF] @
                                 ''0 0 0 0'' @ [LF]) \<infinity> \<infinity>) =
           Inr (0, (Nav2Remote_init [] \<infinity> \<infinity>)
                     \<lparr>line := ''0 0 0 0'', lineLen := 32,
                      trace := [Write (''q'' @ [LF]), Usleep 100000,
                                Write (''q'' @ [LF]), Usleep 100000,
                                Write (''q'' @ [LF]), Usleep 100000,
                                Write (''q'' @ [LF])]\<rparr>)"
  using wait_ends(1) [OF assms, of p0 rest] wait_ends(2) [OF assms, of rest] wait_example
  by simp

theorem wait_polls_until_empty_witness:
  "wf_response (idle_reply ''3'') \<and> 1 \<le> depth_value (rdepth (idle_reply ''3''))
   \<and> wf_response (idle_reply ''2'') \<and> 1 \<le> depth_value (rdepth (idle_reply ''2''))
   \<and> wf_response (idle_reply ''1'') \<and> 1 \<le> depth_value (rdepth (idle_reply ''1''))
   \<and> wf_response (idle_reply ''0'') \<and> depth_value (rdepth (idle_reply ''0'')) < 1
   \<and> (\<exists>r1. wait (Nav2Remote_init (''0 0 0 3'' @ [LF] @ ''0 0 0 2'' @ [LF] @ ''0 0 0 1'' @ [LF] @
                                    ''0 0 0 0'' @ [LF]) \<infinity> \<infinity>) = Inr (0, r1) \<and>
            trace r1 = [Write (''q'' @ [LF]), Usleep 100000, Write (''q'' @ [LF]), Usleep 100000,
                        Write (''q'' @ [LF]), Usleep 100000, Write (''q'' @ [LF])] \<and>
            inp r1 = [])
   \<and> LF \<notin> set ''0 0''
   \<and> (\<exists>r1. wait (Nav2Remote_init (''0 0 0 3'' @ [LF] @ ''0 0'') \<infinity> \<infinity>) = Inr (- 1, r1) \<and>
            trace r1 = [Write (''q'' @ [LF]), Usleep 100000, Write (''q'' @ [LF])])"
proof -
  let ?all = "Nav2Remote_init (''0 0 0 3'' @ [LF] @ ''0 0 0 2'' @ [LF] @ ''0 0 0 1'' @ [LF] @
                               ''0 0 0 0'' @ [LF]) \<infinity> \<infinity>"
  let ?cut = "Nav2Remote_init (''0 0 0 3'' @ [LF] @ ''0 0'') \<infinity> \<infinity>"
  have busy3: "\<forall>p \<in> set [idle_reply ''3'', idle_reply ''2'', idle_reply ''1''].
      wf_response p \<and> 1 \<le> depth_value (rdepth p)"
    and busy1: "\<forall>p \<in> set [idle_reply ''3'']. wf_response p \<and> 1 \<le> depth_value (rdepth p)"
    by (simp_all add: idle_reply_examples)
  have env: "room ?all = \<infinity>" "avail ?all = \<infinity>" "trace ?all = []"
    "room ?cut = \<infinity>" "avail ?cut = \<infinity>" "trace ?cut = []"
    by (simp_all add: Nav2Remote_init_def)
  have i_all: "inp ?all = concat (map (\<lambda>p. response_line p @ [LF])
      ([idle_reply ''3'', idle_reply ''2'', idle_reply ''1''] @ [idle_reply ''0''])) @ []"
    and i_cut: "inp ?cut = concat (map (\<lambda>p. response_line p @ [LF]) [idle_reply ''3'']) @ ''0 0''"
    by (simp_all add: Nav2Remote_init_def idle_reply_examples)
  have nolf: "LF \<notin> set ''0 0''"
    by (simp add: LF_def)
  from wait_polls_until_empty [OF busy3 env(1,2), of "idle_reply ''0''" "[]"] i_all
  have 1: "\<exists>r1. wait ?all = Inr (0, r1) \<and>
      trace r1 = [Write (''q'' @ [LF]), Usleep 100000, Write (''q'' @ [LF]), Usleep 100000,
                  Write (''q'' @ [LF]), Usleep 100000, Write (''q'' @ [LF])] \<and>
      inp r1 = []"
    by (simp add: idle_reply_examples Nav2Remote_init_def)
  from wait_polls_until_empty [OF busy1 env(4,5), of "idle_reply ''0''" "''0 0''"] i_cut nolf
  have 2: "\<exists>r1. wait ?cut = Inr (- 1, r1) \<and>
      trace r1 = [Write (''q'' @ [LF]), Usleep 100000, Write (''q'' @ [LF])]"
    by (simp add: Nav2Remote_init_def)
  from busy3 1 2 nolf show ?thesis
    by (simp add: idle_reply_examples)
qed

section \<open>Reconnecting and the offset\<close>

lemma connect_loop_base_odom:
  "connect_loop retry d = Inr d1 \<Longrightarrow> base_odom d1 = base_odom d"
proof (induction retry d rule: connect_loop.induct)
  case (1 retry d)
  from "1.prems" have lt: "retry < 5"
    by (subst (asm) connect_loop.simps) (simp split: if_splits)
  obtain res net1 where c: "Nav2Remote_new (robot_address d) (robot_port d) (mem d) (net d) = (res, net1)"
    by (cases "Nav2Remote_new (robot_address d) (robot_port d) (mem d) (net d)")
  show ?case
  proof (cases res)
    case (Inl e)
    with "1.prems" lt c have "connect_loop (retry + 1) (d\<lparr>net := net1, slept := slept d @ [0.2]\<rparr>) = Inr d1"
      by (subst (asm) connect_loop.simps) simp
    from "1.IH" [OF lt c [symmetric] Inl this] show ?thesis by simp
  next
    case (Inr r)
    with "1.prems" lt c show ?thesis
      by (subst (asm) connect_loop.simps) auto
  qed
qed

lemma connect_offset:
  assumes "remote d = Some r" and "connect d = Inr d1"
  shows "offset (base_odom d1) = pose (base_odom d)"
    and "pose (base_odom d1) = Pose2D_zero" and "prev (base_odom d1) = Pose2D_zero"
proof -
  let ?d = "(d\<lparr>remote := None, clock_reads := Suc (clock_reads d)\<rparr>)
              \<lparr>base_odom := BaseOdometry_with (getPose (base_odom d)) (clock d (clock_reads d))\<rparr>"
  from assms have "connect_loop 0 ?d = Inr d1"
    by (simp add: connect_def now_def Let_def)
  from connect_loop_base_odom [OF this]
  show "offset (base_odom d1) = pose (base_odom d)"
    and "pose (base_odom d1) = Pose2D_zero" and "prev (base_odom d1) = Pose2D_zero"
    by (simp_all add: BaseOdometry_with_def getPose_def)
qed

text \<open>
  C3. The claim: on every reconnect the offset becomes the pose published just before,
  so that the first pose published after it is the same, also when an earlier reconnect
  has happened. The code sets the offset to \<^verbatim>\<open>getPose()\<close>, which is \<^verbatim>\<open>pose_\<close> without
  \<^verbatim>\<open>offset_\<close>, while the published pose is \<^verbatim>\<open>pose_ + offset_\<close>. A node starts on a
  connection that answers \<^verbatim>\<open>1 0 0 0\<close> and ends; the second connection answers
  \<^verbatim>\<open>2 0 0 0\<close> and ends; the third answers \<^verbatim>\<open>0 0 0 0\<close>. Three timer ticks publish
  \<open>(1, 0, 0)\<close>, \<open>(3, 0, 0)\<close> and \<open>(2, 0, 0)\<close>: the second reconnect moves the published
  pose from \<open>(3, 0, 0)\<close> to \<open>(2, 0, 0)\<close> although the device reports no motion,
  whichever overload of \<^verbatim>\<open>abs\<close> is seen.
\<close>

theorem reconnect_drops_previous_offset:
  "published
     (case Nav2Driver_new ''robot'' 5010 [] False
             [Resolves [Connects (''1 0 0 0'' @ [LF]) \<infinity>],
              Resolves [Connects (''2 0 0 0'' @ [LF]) \<infinity>],
              Resolves [Connects (''0 0 0 0'' @ [LF]) \<infinity>]]
             \<infinity> real of
        Inl e \<Rightarrow> Inl e
      | Inr d \<Rightarrow> ticks ov 3 d) =
   Inr [Pose2D_of 1 0 0, Pose2D_of 3 0 0, Pose2D_of 2 0 0]"
  by (simp add: published_def Nav2Driver_new_def connect_def connect_loop.simps Nav2Remote_new_def
      Nav2Remote_init_def now_def eval_nat_numeral publishOdometry_def publishOdometry_loop.simps
      estimatePosition_def fd_write_def accepted_def readLine_def grow_def
      c_str_def sscanf_lf3_d_def scan_lf_def scan_d_def
      scan_sign_def scan_frac_def scan_exp_def isspace_def isdigit_def digits_val_def
      digit_val_def LF_def CR_def NUL_def updateWithAbsolute_def updateWithRelative_def
      Pose2D_minus_def Pose2D_minuseq_def Pose2D_pluseq_def Pose2D_div_def Pose2D_diveq_def
      Pose2D_zero_def Pose2D_of_def BaseOdometry_new_def BaseOdometry_with_def getPose_def
      getMessage_def published_pose_def Odometry_new_def Let_def)

section \<open>Velocity commands\<close>

lemma fd_write_whole:
  "fst (fd_write r m) = length m \<Longrightarrow> trace (snd (fd_write r m)) = trace r @ [Write m]"
  by (simp add: fd_write_def Let_def)

lemma send_msg_done:
  assumes "send_msg r m = Inr (rc, r1)" and "\<not> rc < 0"
  shows "trace r1 = trace r @ [Write m]"
proof -
  from assms have "fst (fd_write r m) = length m" and "r1 = snd (fd_write r m)"
    by (auto simp: send_msg_def split_beta split: if_splits)
  with fd_write_whole [of r m] show ?thesis by simp
qed

lemma setRelativeVelocity_done:
  assumes "setRelativeVelocity r vn vs w = Inr (rc, r1)" and "\<not> rc < 0"
  shows "trace r1 = trace r @ [Write (''v '' @ fmt_lf vn @ '' '' @ fmt_lf vs @ '' '' @
                                     fmt_lf (w * (180 / pi)) @ [LF])]"
  using assms unfolding setRelativeVelocity_def by (rule send_msg_done)

lemma setVelocity_loop_last:
  "setVelocity_loop d vn vs w = Inr d1 \<Longrightarrow>
     \<exists>r1. remote d1 = Some r1 \<and> trace r1 \<noteq> [] \<and>
          last (trace r1) = Write (''v '' @ fmt_lf vn @ '' '' @ fmt_lf vs @ '' '' @
                                   fmt_lf (w * (180 / pi)) @ [LF])"
proof (induction d vn vs w rule: setVelocity_loop.induct)
  case (1 d vn vs w)
  show ?case
  proof (cases "remote d")
    case None
    with "1.prems" obtain d2 where c: "connect d = Inr d2"
      and l: "setVelocity_loop d2 vn vs w = Inr d1"
      by (subst (asm) setVelocity_loop.simps) (auto split: sum.splits)
    from "1.IH"(1) [OF None c l] show ?thesis .
  next
    case (Some r)
    with "1.prems" obtain rc r1 where s: "setRelativeVelocity r vn vs w = Inr (rc, r1)"
      by (subst (asm) setVelocity_loop.simps) (auto split: sum.splits)
    show ?thesis
    proof (cases "rc < 0")
      case True
      with "1.prems" Some s obtain d2 where c: "connect (d\<lparr>remote := Some r1\<rparr>) = Inr d2"
        and l: "setVelocity_loop d2 vn vs w = Inr d1"
        by (subst (asm) setVelocity_loop.simps) (auto split: sum.splits)
      from "1.IH"(2) [OF Some s refl True c l] show ?thesis .
    next
      case False
      with "1.prems" Some s have "d1 = d\<lparr>remote := Some r1\<rparr>"
        by (subst (asm) setVelocity_loop.simps) auto
      with setRelativeVelocity_done [OF s False] show ?thesis by simp
    qed
  qed
qed


lemma fmt_lf_more_examples:
  "fmt_lf 90 = ''90.000000''"
  "fmt_lf 2 = ''2.000000''"
  "fmt_lf 180 = ''180.000000''"
proof -
  have a: "round_half_even (\<bar>90\<bar> * 10 ^ 6) = 90000000"
    using round_half_even_of_int [of 90000000] by simp
  have b: "round_half_even (\<bar>2\<bar> * 10 ^ 6) = 2000000"
    using round_half_even_of_int [of 2000000] by simp
  have c: "round_half_even (\<bar>180\<bar> * 10 ^ 6) = 180000000"
    using round_half_even_of_int [of 180000000] by simp
  show "fmt_lf 90 = ''90.000000''"
    unfolding fmt_lf_def a by (simp add: decimal.simps digit_char_def)
  show "fmt_lf 2 = ''2.000000''"
    unfolding fmt_lf_def b by (simp add: decimal.simps digit_char_def)
  show "fmt_lf 180 = ''180.000000''"
    unfolding fmt_lf_def c by (simp add: decimal.simps digit_char_def)
qed

text \<open>
  C5. Whenever \<^verbatim>\<open>setVelocity\<close> returns, the last thing written on the connection it
  leaves is the complete line of \<^verbatim>\<open>setRelativeVelocity\<close> whose first number is
  \<open>atan2 vy vx\<close> in degrees, whose second is the speed \<open>sqrt (vx^2 + vy^2)\<close> and whose
  third is \<open>omega_z\<close> multiplied by \<open>180 / pi\<close>. And on a connected node, when the call
  \<^verbatim>\<open>setRelativeVelocity(atan2(vy, vx) * (180 / pi), sqrt(vx^2 + vy^2), omega_z)\<close> returns 0,
  \<^verbatim>\<open>setVelocity\<close> is that call: the heading in degrees goes where \<^verbatim>\<open>vx\<close> is expected, the
  speed where \<^verbatim>\<open>vy\<close> is expected, and the turn rate is passed in radians per second.
\<close>

theorem setVelocity_sends_polar:
  "(setVelocity d tw = Inr d1 \<longrightarrow>
      (\<exists>r1. remote d1 = Some r1 \<and> trace r1 \<noteq> [] \<and>
            last (trace r1) =
              Write (''v '' @ fmt_lf (atan2 (linear_y tw) (linear_x tw) * (180 / pi)) @ '' '' @
                     fmt_lf (sqrt ((linear_x tw) ^ 2 + (linear_y tw) ^ 2)) @ '' '' @
                     fmt_lf (angular_z tw * (180 / pi)) @ [LF])))
   \<and> (remote d = Some r \<longrightarrow>
        setRelativeVelocity r (atan2 (linear_y tw) (linear_x tw) * (180 / pi))
          (sqrt ((linear_x tw) ^ 2 + (linear_y tw) ^ 2)) (angular_z tw) = Inr (0, r2) \<longrightarrow>
        setVelocity d tw = Inr (d\<lparr>remote := Some r2\<rparr>))"
proof (intro conjI impI)
  assume "setVelocity d tw = Inr d1"
  then have "setVelocity_loop d (atan2 (linear_y tw) (linear_x tw) * (180 / pi))
      (sqrt ((linear_x tw) ^ 2 + (linear_y tw) ^ 2)) (angular_z tw) = Inr d1"
    by (simp add: setVelocity_def Let_def)
  from setVelocity_loop_last [OF this]
  show "\<exists>r1. remote d1 = Some r1 \<and> trace r1 \<noteq> [] \<and>
      last (trace r1) =
        Write (''v '' @ fmt_lf (atan2 (linear_y tw) (linear_x tw) * (180 / pi)) @ '' '' @
               fmt_lf (sqrt ((linear_x tw) ^ 2 + (linear_y tw) ^ 2)) @ '' '' @
               fmt_lf (angular_z tw * (180 / pi)) @ [LF])" .
next
  assume "remote d = Some r"
    and "setRelativeVelocity r (atan2 (linear_y tw) (linear_x tw) * (180 / pi))
          (sqrt ((linear_x tw) ^ 2 + (linear_y tw) ^ 2)) (angular_z tw) = Inr (0, r2)"
  then show "setVelocity d tw = Inr (d\<lparr>remote := Some r2\<rparr>)"
    unfolding setVelocity_def Let_def by (subst setVelocity_loop.simps) simp
qed

theorem setVelocity_sends_polar_witness:
  "remote (projr (Nav2Driver_new ''robot'' 5010 [] False [Resolves [Connects [] \<infinity>]] \<infinity> real)) =
     Some (Nav2Remote_init [] \<infinity> \<infinity>)
   \<and> atan2 2 0 * (180 / pi) = 90 \<and> sqrt (0 ^ 2 + 2 ^ 2) = 2
   \<and> setRelativeVelocity (Nav2Remote_init [] \<infinity> \<infinity>) 90 2 pi =
       Inr (0, (Nav2Remote_init [] \<infinity> \<infinity>)
                 \<lparr>trace := [Write (''v 90.000000 2.000000 180.000000'' @ [LF])]\<rparr>)
   \<and> setVelocity (projr (Nav2Driver_new ''robot'' 5010 [] False [Resolves [Connects [] \<infinity>]] \<infinity> real))
         \<lparr>linear_x = 0, linear_y = 2, angular_z = pi\<rparr> =
       Inr ((projr (Nav2Driver_new ''robot'' 5010 [] False [Resolves [Connects [] \<infinity>]] \<infinity> real))
              \<lparr>remote := Some ((Nav2Remote_init [] \<infinity> \<infinity>)
                 \<lparr>trace := [Write (''v 90.000000 2.000000 180.000000'' @ [LF])]\<rparr>)\<rparr>)
   \<and> last [Write (''v 90.000000 2.000000 180.000000'' @ [LF])] =
       Write (''v '' @ fmt_lf (atan2 2 0 * (180 / pi)) @ '' '' @ fmt_lf (sqrt (0 ^ 2 + 2 ^ 2)) @
              '' '' @ fmt_lf (pi * (180 / pi)) @ [LF])"
proof -
  let ?d = "projr (Nav2Driver_new ''robot'' 5010 [] False [Resolves [Connects [] \<infinity>]] \<infinity> real)"
  let ?c = "Nav2Remote_init [] \<infinity> \<infinity>"
  let ?after = "?c\<lparr>trace := [Write (''v 90.000000 2.000000 180.000000'' @ [LF])]\<rparr>"
  let ?tw = "\<lparr>linear_x = 0, linear_y = 2, angular_z = pi\<rparr>"
  have rem: "remote ?d = Some ?c"
    by (simp add: Nav2Driver_new_def connect_def connect_loop.simps Nav2Remote_new_def)
  have vn: "atan2 2 0 * (180 / pi) = 90" and vs: "sqrt (0 ^ 2 + 2 ^ 2) = 2"
    by (simp_all add: atan2_def)
  have env: "room ?c = \<infinity>" "trace ?c = []"
    by (simp_all add: Nav2Remote_init_def)
  have call: "setRelativeVelocity ?c 90 2 pi = Inr (0, ?after)"
    using env by (simp add: setRelativeVelocity_def fmt_lf_more_examples send_msg_unbounded)
  have call': "setRelativeVelocity ?c (atan2 (linear_y ?tw) (linear_x ?tw) * (180 / pi))
      (sqrt ((linear_x ?tw) ^ 2 + (linear_y ?tw) ^ 2)) (angular_z ?tw) = Inr (0, ?after)"
    using call vn vs by simp
  from setVelocity_sends_polar [of ?d ?tw "?d\<lparr>remote := Some ?after\<rparr>" ?c ?after] rem call'
  have run: "setVelocity ?d ?tw = Inr (?d\<lparr>remote := Some ?after\<rparr>)"
    by blast
  have wire: "last [Write (''v 90.000000 2.000000 180.000000'' @ [LF])] =
       Write (''v '' @ fmt_lf (atan2 2 0 * (180 / pi)) @ '' '' @ fmt_lf (sqrt (0 ^ 2 + 2 ^ 2)) @
              '' '' @ fmt_lf (pi * (180 / pi)) @ [LF])"
    unfolding vn vs by (simp add: fmt_lf_more_examples)
  from rem vn vs call run wire show ?thesis
    by (intro conjI)
qed

end
